theory Spec2Isabelle
  imports Main "HOL-Library.AList"
begin

section \<open>spyderGPT: incremental ingestion into a vector store\<close>

text \<open>
  A shallow embedding of the ingestion engine of spyderGPT: the document loader
  (\<^verbatim>\<open>loader.py\<close>), the worker base class and its three workers
  (\<^verbatim>\<open>worker/*.py\<close>), the processors and the dispatcher
  (\<^verbatim>\<open>processor.py\<close>, \<^verbatim>\<open>operator.py\<close>, \<^verbatim>\<open>ingestor.py\<close>) and the configuration
  merge (\<^verbatim>\<open>utils.py\<close>).

  Python objects that are mutated become fields of an explicit \<open>world\<close> that every
  operation takes and returns. Exceptions become values: an operation returns
  \<open>error + 'a\<close> (or \<open>error option\<close> when it returns nothing) together with the world,
  because Python code mutates state before it raises.

  Third-party libraries (langchain, chromadb, requests, pandas) are capabilities
  collected in the record \<open>env\<close>. What the model fixes about them is said where it is
  used: a langchain loader records the path it was given as the \<^verbatim>\<open>source\<close> of its
  document; \<^verbatim>\<open>split_documents\<close> cuts every document on its own and copies its
  metadata to the chunks; a Chroma client holds what is stored in its persistence
  directory, and \<^verbatim>\<open>persist\<close> writes the collection there. The order in which a pool
  returns results is taken to be the order of submission.
\<close>

subsection \<open>Errors\<close>

text \<open>The exception classes that the modelled code raises; messages are dropped.
  \<open>LibraryError\<close> stands for whatever BeautifulSoup or pandas raise on a page they
  cannot read.\<close>

datatype error =
    NoNewDocumentsLoadedError
  | InvalidOperationKeyError
  | ValueError
  | FileNotFoundError
  | KeyError
  | TypeError
  | UnboundLocalError
  | IsADirectoryError
  | LibraryError

subsection \<open>Paths, patterns and the file system\<close>

text \<open>
  The file system is an association list from paths to nodes, in directory order.
  Only what the code asks of it is modelled: \<^verbatim>\<open>exists\<close>, \<^verbatim>\<open>is_dir\<close>,
  \<^verbatim>\<open>is_file\<close>, the two kinds of glob, and writing a file.
\<close>

datatype node = Dir | File string

type_synonym filesystem = "(string \<times> node) list"

definition path_exists :: "filesystem \<Rightarrow> string \<Rightarrow> bool" where
  "path_exists fsys p = (map_of fsys p \<noteq> None)"

definition is_dir :: "filesystem \<Rightarrow> string \<Rightarrow> bool" where
  "is_dir fsys p = (map_of fsys p = Some Dir)"

definition is_file :: "filesystem \<Rightarrow> string \<Rightarrow> bool" where
  "is_file fsys p = (case map_of fsys p of Some (File _) \<Rightarrow> True | _ \<Rightarrow> False)"

text \<open>
  \<^verbatim>\<open>Path(a) / b\<close> for a relative \<open>b\<close>; joining the empty string gives the
  directory itself.
\<close>

definition joinpath :: "string \<Rightarrow> string \<Rightarrow> string" where
  "joinpath d n = (if n = [] then d else d @ ''/'' @ n)"

text \<open>\<^verbatim>\<open>s.split(c)\<close>: never empty, \<^verbatim>\<open>"".split("/") == [""]\<close>.\<close>

fun split_on :: "char \<Rightarrow> string \<Rightarrow> string list" where
  "split_on c [] = [[]]"
| "split_on c (x # xs) =
     (if x = c then [] # split_on c xs
      else (case split_on c xs of [] \<Rightarrow> [[x]] | w # ws \<Rightarrow> (x # w) # ws))"

text \<open>
  Shell-style matching of one path component, as \<^verbatim>\<open>fnmatch\<close> does it for the
  wildcards \<^verbatim>\<open>*\<close> and \<^verbatim>\<open>?\<close>; bracket classes are not modelled (every other
  character stands for itself). The pattern comes first.
\<close>

fun fnmatch :: "string \<Rightarrow> string \<Rightarrow> bool" where
  "fnmatch [] [] = True"
| "fnmatch [] (c # cs) = False"
| "fnmatch (p # ps) [] = (p = CHR ''*'' \<and> fnmatch ps [])"
| "fnmatch (p # ps) (c # cs) =
     (if p = CHR ''*'' then fnmatch ps (c # cs) \<or> fnmatch (p # ps) cs
      else (p = CHR ''?'' \<or> p = c) \<and> fnmatch ps cs)"

text \<open>The part of \<open>p\<close> below the directory \<open>d\<close>, when \<open>p\<close> lies below \<open>d\<close>.\<close>

definition relative_to :: "string \<Rightarrow> string \<Rightarrow> string option" where
  "relative_to d p =
     (if take (length d + 1) p = d @ ''/'' then Some (drop (length d + 1) p) else None)"

text \<open>
  \<^verbatim>\<open>Path.glob(pattern)\<close> for a pattern of one component: the entries directly in the
  directory whose name matches. Nothing when the path is not a directory.
\<close>

definition path_glob :: "filesystem \<Rightarrow> string \<Rightarrow> string \<Rightarrow> string list" where
  "path_glob fsys d pat =
     (if is_dir fsys d then
        [p \<leftarrow> map fst fsys.
           (case relative_to d p of
              None \<Rightarrow> False
            | Some n \<Rightarrow> n \<noteq> [] \<and> CHR ''/'' \<notin> set n \<and> fnmatch pat n)]
      else [])"

definition hidden :: "string \<Rightarrow> bool" where
  "hidden n = (case n of [] \<Rightarrow> False | c # _ \<Rightarrow> c = CHR ''.'')"

text \<open>
  \<^verbatim>\<open>glob.glob(str(source_dir / f"**/*{ext}"), recursive=True)\<close>: the entries at any
  depth below the directory whose last component matches \<^verbatim>\<open>*ext\<close>; the \<^verbatim>\<open>glob\<close>
  module skips hidden names, also on the way down.
\<close>

definition glob_recursive :: "filesystem \<Rightarrow> string \<Rightarrow> string \<Rightarrow> string list" where
  "glob_recursive fsys d ext =
     (if is_dir fsys d then
        [p \<leftarrow> map fst fsys.
           (case relative_to d p of
              None \<Rightarrow> False
            | Some r \<Rightarrow>
                (let comps = split_on CHR ''/'' r
                 in list_all (\<lambda>c. c \<noteq> [] \<and> \<not> hidden c) comps
                    \<and> fnmatch (''*'' @ ext) (last comps)))]
      else [])"

text \<open>\<^verbatim>\<open>Path(p).name\<close> and \<^verbatim>\<open>Path(p).suffix\<close>.\<close>

definition path_name :: "string \<Rightarrow> string" where
  "path_name p = last (split_on CHR ''/'' p)"

definition path_suffix :: "string \<Rightarrow> string" where
  "path_suffix p =
     (let n = path_name p;
          tl_ext = rev (takeWhile (\<lambda>c. c \<noteq> CHR ''.'') (rev n));
          i = length n - length tl_ext - 1
      in if CHR ''.'' \<in> set n \<and> 0 < i \<and> tl_ext \<noteq> [] then CHR ''.'' # tl_ext else [])"

text \<open>\<^verbatim>\<open>open(p, "wb").write(content)\<close>: replaces the file or adds it.\<close>

definition write_file :: "string \<Rightarrow> string \<Rightarrow> filesystem \<Rightarrow> filesystem" where
  "write_file p content fsys = AList.update p (File content) fsys"

text \<open>Leaving a \<^verbatim>\<open>tempfile.TemporaryDirectory\<close>: the directory and all below it go.\<close>

definition remove_tree :: "string \<Rightarrow> filesystem \<Rightarrow> filesystem" where
  "remove_tree d fsys = [e \<leftarrow> fsys. fst e \<noteq> d \<and> relative_to d (fst e) = None]"

text \<open>\<^verbatim>\<open>Path(p).parent\<close>, for a path with a directory part.\<close>

definition path_parent :: "string \<Rightarrow> string" where
  "path_parent p = take (length p - length (path_name p) - 1) p"

text \<open>
  \<^verbatim>\<open>with open(p, "wb") as f: f.write(content)\<close>: fails on a directory and where the
  parent directory is missing.
\<close>

definition open_write :: "string \<Rightarrow> string \<Rightarrow> filesystem \<Rightarrow> error + filesystem" where
  "open_write p content fsys =
     (if is_dir fsys p then Inl IsADirectoryError
      else if \<not> is_dir fsys (path_parent p) then Inl FileNotFoundError
      else Inr (write_file p content fsys))"

subsection \<open>Documents, settings, capabilities and the world\<close>

text \<open>
  A langchain \<^verbatim>\<open>Document\<close>: its text and the \<^verbatim>\<open>source\<close> entry of its metadata,
  the only entry the code reads.
\<close>

record document =
  page_content :: string
  source :: string

text \<open>The options of \<^verbatim>\<open>spydergpt.yml\<close> that the modelled code reads.\<close>

record settings =
  textsplitter_size :: nat
  textsplitter_overlap :: nat
  sourcedocuments :: string
  crawler_root :: string
  crawler_paths :: "string list"
  persist_directory :: string
  vectorstore_index :: string
  vectorstore_bin :: string
  vectorstore_pickle :: string
  parquet_collections :: string
  parquet_embeddings :: string

text \<open>The outcome of \<^verbatim>\<open>session.get\<close>: the request raised, or a response with its
  status code, its \<^verbatim>\<open>content-type\<close> header and its body.\<close>

datatype http_result = RequestException | Response nat "string option" string

text \<open>
  The libraries the code calls, as capabilities:
  \<^item> \<open>loader_parse ext raw\<close>: the text of the first document that the langchain loader
    mapped to the extension makes of a file's bytes; \<open>None\<close> when it raises;
  \<^item> \<open>split_text size overlap text\<close>: the chunks \<^verbatim>\<open>RecursiveCharacterTextSplitter\<close>
    cuts a text into;
  \<^item> \<open>http_get url\<close>: the web;
  \<^item> \<open>table_links page\<close>: the (ShortTitle, url) records that BeautifulSoup and pandas
    read off the table \<^verbatim>\<open>rpt\<close> of a listing page; \<open>None\<close> when they raise;
  \<^item> \<open>guess_extension\<close>: \<^verbatim>\<open>mimetypes.guess_extension\<close>;
  \<^item> \<open>mkdtemp n\<close>: the name of the \<open>n\<close>-th temporary directory;
  \<^item> \<open>chroma_artifacts dir\<close>: the entries Chroma's \<^verbatim>\<open>persist\<close> writes below the
    persistence directory.
\<close>

record env =
  loader_parse :: "string \<Rightarrow> string \<Rightarrow> string option"
  split_text :: "nat \<Rightarrow> nat \<Rightarrow> string \<Rightarrow> string list"
  http_get :: "string \<Rightarrow> http_result"
  table_links :: "string \<Rightarrow> (string \<times> string) list option"
  guess_extension :: "string \<Rightarrow> string option"
  mkdtemp :: "nat \<Rightarrow> string"
  chroma_artifacts :: "string \<Rightarrow> filesystem"

text \<open>
  What the program does that can be observed: the calls on the vector store, the
  prints that report a decision, the construction of a loader with its exclusion
  list, the files handed to the parsing pool, and the downloads.
\<close>

datatype event =
    StoreOpen
  | StoreGet
  | StoreAdd "document list"
  | StoreCreate "document list"
  | StorePersist
  | Print string
  | NewLoader "string list"
  | Schedule "string list"
  | HttpGet string
  | FileWrite string
  | DownloadFailed nat

text \<open>
  The state of one Python process and its surroundings. \<open>cls_documents\<close> and
  \<open>cls_processed_texts\<close> are the class attributes \<^verbatim>\<open>DocumentLoader.documents\<close> and
  \<^verbatim>\<open>DocumentLoader.processed_texts\<close>, created once when the class body runs;
  \<open>persisted\<close> is the collection Chroma holds on disk.
\<close>

record world =
  fs :: filesystem
  persisted :: "document list"
  cls_documents :: "document list"
  cls_processed_texts :: "document list"
  tmp_seq :: nat
  trace :: "event list"

definition emit :: "event \<Rightarrow> world \<Rightarrow> world" where
  "emit e w = w\<lparr>trace := trace w @ [e]\<rparr>"

text \<open>The calls on the vector store among the events.\<close>

fun is_store_op :: "event \<Rightarrow> bool" where
  "is_store_op StoreOpen = True"
| "is_store_op StoreGet = True"
| "is_store_op (StoreAdd _) = True"
| "is_store_op (StoreCreate _) = True"
| "is_store_op StorePersist = True"
| "is_store_op _ = False"

definition store_ops :: "event list \<Rightarrow> event list" where
  "store_ops tr = filter is_store_op tr"

subsection \<open>\<^verbatim>\<open>loader.py\<close>: DocumentLoader\<close>

text \<open>The keys of \<^verbatim>\<open>Constants.LOADER_MAPPING\<close>, in the order of the dictionary.\<close>

definition LOADER_MAPPING :: "string list" where
  "LOADER_MAPPING =
     [''.csv'', ''.doc'', ''.docx'', ''.eml'', ''.pdf'', ''.ppt'', ''.pptx'', ''.txt'']"

text \<open>
  An instance of \<^verbatim>\<open>DocumentLoader\<close>: the attributes \<^verbatim>\<open>__init__\<close> sets, and
  \<^verbatim>\<open>processed_texts\<close>, which the instance holds only once \<^verbatim>\<open>process\<close> has
  assigned it.
\<close>

record loader =
  ignored_files :: "string list"
  loader_settings :: settings
  self_processed_texts :: "document list option"

definition DocumentLoader :: "string list \<Rightarrow> settings \<Rightarrow> loader" where
  "DocumentLoader ignored st =
     \<lparr>ignored_files = ignored, loader_settings = st, self_processed_texts = None\<rparr>"

text \<open>
  Attribute lookup. \<^verbatim>\<open>self.documents\<close> is never assigned, so it is always the
  class attribute; \<^verbatim>\<open>self.processed_texts\<close> is the instance's once assigned and the
  class attribute before.
\<close>

definition documents :: "world \<Rightarrow> loader \<Rightarrow> document list" where
  "documents w self = cls_documents w"

definition processed_texts :: "world \<Rightarrow> loader \<Rightarrow> document list" where
  "processed_texts w self =
     (case self_processed_texts self of Some t \<Rightarrow> t | None \<Rightarrow> cls_processed_texts w)"

text \<open>
  \<^verbatim>\<open>_load_single_document\<close>. Every exception of the langchain loader becomes a
  \<^verbatim>\<open>ValueError\<close>; the loaders record the path they were given as \<^verbatim>\<open>source\<close>.
\<close>

definition load_single_document :: "env \<Rightarrow> filesystem \<Rightarrow> string \<Rightarrow> error + document" where
  "load_single_document en fsys file_path =
     (let ext = path_suffix file_path in
      if ext \<in> set LOADER_MAPPING then
        (case map_of fsys file_path of
           Some (File raw) \<Rightarrow>
             (case loader_parse en ext raw of
                Some text \<Rightarrow> Inr \<lparr>page_content = text, source = file_path\<rparr>
              | None \<Rightarrow> Inl ValueError)
         | _ \<Rightarrow> Inl ValueError)
      else Inl ValueError)"

definition all_files :: "filesystem \<Rightarrow> string \<Rightarrow> string list" where
  "all_files fsys source_dir = concat (map (glob_recursive fsys source_dir) LOADER_MAPPING)"

definition filtered_files :: "loader \<Rightarrow> filesystem \<Rightarrow> string \<Rightarrow> string list" where
  "filtered_files self fsys source_dir =
     [file_path \<leftarrow> all_files fsys source_dir. file_path \<notin> set (ignored_files self)]"

text \<open>
  The loop over the pool's results: each document is appended to the shared list as it
  arrives, and the first exception leaves the loop. The pool hands results back in
  any order; the model takes them in the order of submission.
\<close>

fun append_results :: "(error + document) list \<Rightarrow> document list \<Rightarrow> error option \<times> document list" where
  "append_results [] docs = (None, docs)"
| "append_results (Inl e # rs) docs = (Some e, docs)"
| "append_results (Inr d # rs) docs = append_results rs (docs @ [d])"

definition load :: "env \<Rightarrow> loader \<Rightarrow> string \<Rightarrow> world \<Rightarrow> error option \<times> world" where
  "load en self source_dir w =
     (let files = filtered_files self (fs w) source_dir;
          w1 = emit (Schedule files) w;
          (err, docs) = append_results (map (load_single_document en (fs w)) files) (documents w self)
      in (err, w1\<lparr>cls_documents := docs\<rparr>))"

text \<open>
  \<^verbatim>\<open>TextSplitter.split_documents\<close>: every document is cut on its own and every
  chunk carries the metadata of its document.
\<close>

definition split_documents :: "env \<Rightarrow> nat \<Rightarrow> nat \<Rightarrow> document list \<Rightarrow> document list" where
  "split_documents en sz ov docs =
     concat (map (\<lambda>d. map (\<lambda>t. \<lparr>page_content = t, source = source d\<rparr>)
                         (split_text en sz ov (page_content d))) docs)"

text \<open>\<^verbatim>\<open>process\<close> assigns \<^verbatim>\<open>self.processed_texts\<close>: the instance changes, the class
  does not.\<close>

definition process :: "env \<Rightarrow> loader \<Rightarrow> world \<Rightarrow> error + loader" where
  "process en self w =
     (if documents w self = [] then Inl NoNewDocumentsLoadedError
      else
        (let texts = split_documents en (textsplitter_size (loader_settings self))
                       (textsplitter_overlap (loader_settings self)) (documents w self)
         in Inr (self\<lparr>self_processed_texts := Some texts\<rparr>)))"

subsection \<open>\<^verbatim>\<open>utils.py\<close>: get_files\<close>

text \<open>The matches of every pattern, one pattern after the other.\<close>

definition get_files :: "filesystem \<Rightarrow> string \<Rightarrow> string list \<Rightarrow> string list" where
  "get_files fsys file_path extensions = concat (map (path_glob fsys file_path) extensions)"

subsection \<open>\<^verbatim>\<open>worker/workerbase.py\<close>: the vector store\<close>

definition does_vectorstore_exist :: "settings \<Rightarrow> filesystem \<Rightarrow> bool" where
  "does_vectorstore_exist st fsys =
     (let persist_path = persist_directory st;
          index_path = joinpath persist_path (vectorstore_index st);
          collections_path = joinpath persist_path (parquet_collections st);
          embeddings_path = joinpath persist_path (parquet_embeddings st);
          list_index_files = get_files fsys index_path [vectorstore_bin st, vectorstore_pickle st]
      in is_dir fsys index_path
         \<and> is_file fsys collections_path
         \<and> is_file fsys embeddings_path
         \<and> 3 \<le> length list_index_files)"

text \<open>
  \<^verbatim>\<open>_get_vectorstore\<close>: with documents, \<^verbatim>\<open>Chroma.from_documents\<close>; without,
  the \<^verbatim>\<open>Chroma\<close> constructor. Either way the client sits on the persistence
  directory and holds what is stored there. The result is the client's collection.
\<close>

definition get_vectorstore :: "document list \<Rightarrow> world \<Rightarrow> document list \<times> world" where
  "get_vectorstore docs w =
     (if docs \<noteq> [] then (persisted w @ docs, emit (StoreCreate docs) w)
      else (persisted w, emit StoreOpen w))"

definition create_vectorstore :: "document list \<Rightarrow> world \<Rightarrow> document list \<times> world" where
  "create_vectorstore texts w = get_vectorstore texts w"

text \<open>\<^verbatim>\<open>db.persist()\<close>: the collection goes to disk, with Chroma's files.\<close>

definition persist :: "env \<Rightarrow> settings \<Rightarrow> document list \<Rightarrow> world \<Rightarrow> world" where
  "persist en st db w =
     emit StorePersist
       (w\<lparr>persisted := db,
          fs := fold (\<lambda>(p, n). AList.update p n) (chroma_artifacts en (persist_directory st)) (fs w)\<rparr>)"

text \<open>
  The exclusion list every \<^verbatim>\<open>_gather\<close> computes first. \<^verbatim>\<open>collection\<close> is
  \<^verbatim>\<open>None\<close> (no store) or the result of \<^verbatim>\<open>db.get()\<close>, a dictionary that is never
  empty, so the test \<^verbatim>\<open>if collection\<close> tells the two apart.
\<close>

definition exclusion :: "document list option \<Rightarrow> string list" where
  "exclusion collection = (case collection of None \<Rightarrow> [] | Some metadatas \<Rightarrow> map source metadatas)"

subsection \<open>\<^verbatim>\<open>worker/localworker.py\<close>\<close>

text \<open>The common tail of the three \<^verbatim>\<open>_gather\<close> methods: \<^verbatim>\<open>process\<close>, then the test
  for an empty result.\<close>

definition process_and_check :: "env \<Rightarrow> loader \<Rightarrow> world \<Rightarrow> error + loader" where
  "process_and_check en self w =
     (case process en self w of
        Inl e \<Rightarrow> Inl e
      | Inr self' \<Rightarrow>
          if processed_texts w self' = [] then Inl NoNewDocumentsLoadedError else Inr self')"

definition local_gather :: "env \<Rightarrow> settings \<Rightarrow> document list option \<Rightarrow> world \<Rightarrow> (error + document list) \<times> world" where
  "local_gather en st collection w0 =
     (let w = emit (Print ''gathering documents'') w0 in
      if \<not> path_exists (fs w) (sourcedocuments st) then (Inl FileNotFoundError, w)
      else
        (let self = DocumentLoader (exclusion collection) st;
             w1 = emit (NewLoader (ignored_files self)) w
         in case load en self (sourcedocuments st) w1 of
              (Some e, w2) \<Rightarrow> (Inl e, w2)
            | (None, w2) \<Rightarrow>
                (case process_and_check en self w2 of
                   Inl e \<Rightarrow> (Inl e, w2)
                 | Inr self' \<Rightarrow> (Inr (processed_texts w2 self'), w2))))"

subsection \<open>Temporary directories\<close>

definition enter_tmpdir :: "env \<Rightarrow> world \<Rightarrow> string \<times> world" where
  "enter_tmpdir en w =
     (let d = mkdtemp en (tmp_seq w)
      in (d, w\<lparr>fs := AList.update d Dir (fs w), tmp_seq := Suc (tmp_seq w)\<rparr>))"

definition exit_tmpdir :: "string \<Rightarrow> world \<Rightarrow> world" where
  "exit_tmpdir d w = w\<lparr>fs := remove_tree d (fs w)\<rparr>"

subsection \<open>\<^verbatim>\<open>worker/urlworker.py\<close>\<close>

text \<open>\<^verbatim>\<open>Response.ok\<close>: \<^verbatim>\<open>raise_for_status\<close> raises on 4xx and 5xx only.\<close>

definition response_ok :: "nat \<Rightarrow> bool" where
  "response_ok status = (\<not> (400 \<le> status \<and> status < 600))"

definition url_download_single_file :: "env \<Rightarrow> string \<Rightarrow> string \<Rightarrow> string \<Rightarrow> world \<Rightarrow> error option \<times> world" where
  "url_download_single_file en url dest_folder file_name w0 =
     (let w = emit (HttpGet url) w0 in
      case http_get en url of
        RequestException \<Rightarrow> (Some ValueError, w)
      | Response status ctype content \<Rightarrow>
          if response_ok status then
            (let file_path = joinpath dest_folder file_name in
             case open_write file_path content (fs w) of
               Inl e \<Rightarrow> (Some e, w)
             | Inr fsys \<Rightarrow> (None, emit (FileWrite file_path) (w\<lparr>fs := fsys\<rparr>)))
          else (None, emit (DownloadFailed status) w))"

text \<open>With an empty URL \<^verbatim>\<open>filename\<close> is never bound, and submitting the task fails.\<close>

definition url_download :: "env \<Rightarrow> string \<Rightarrow> string \<Rightarrow> world \<Rightarrow> error option \<times> world" where
  "url_download en url dest_folder w =
     (if url = [] then (Some UnboundLocalError, w)
      else url_download_single_file en url dest_folder (last (split_on CHR ''/'' url)) w)"

definition url_gather :: "env \<Rightarrow> settings \<Rightarrow> string \<Rightarrow> document list option \<Rightarrow> world \<Rightarrow> (error + document list) \<times> world" where
  "url_gather en st url collection w0 =
     (let ignored = exclusion collection;
          (tmpdirname, w) = enter_tmpdir en w0;
          self = DocumentLoader ignored st;
          w1 = emit (NewLoader (ignored_files self)) w
      in case url_download en url tmpdirname w1 of
           (Some e, w2) \<Rightarrow> (Inl e, exit_tmpdir tmpdirname w2)
         | (None, w2) \<Rightarrow>
             (case load en self tmpdirname w2 of
                (Some e, w3) \<Rightarrow> (Inl e, exit_tmpdir tmpdirname w3)
              | (None, w3) \<Rightarrow>
                  (case process_and_check en self w3 of
                     Inl e \<Rightarrow> (Inl e, exit_tmpdir tmpdirname w3)
                   | Inr self' \<Rightarrow> (Inr (processed_texts w3 self'), exit_tmpdir tmpdirname w3))))"

subsection \<open>\<^verbatim>\<open>worker/webworker.py\<close>\<close>

definition is_space :: "char \<Rightarrow> bool" where
  "is_space c = (c \<in> set [CHR '' '', CHR 0x09, CHR 0x0A, CHR 0x0B, CHR 0x0C, CHR 0x0D])"

definition strip :: "string \<Rightarrow> string" where
  "strip s = rev (dropWhile is_space (rev (dropWhile is_space s)))"

text \<open>\<^verbatim>\<open>header.partition(";")[0].strip()\<close>\<close>

definition mime_type :: "string \<Rightarrow> string" where
  "mime_type header = strip (takeWhile (\<lambda>c. c \<noteq> CHR '';'') header)"

text \<open>A response without a \<^verbatim>\<open>content-type\<close> header raises \<^verbatim>\<open>KeyError\<close>; an
  extension that cannot be guessed is formatted as \<^verbatim>\<open>None\<close>.\<close>

definition web_download_single_file :: "env \<Rightarrow> string \<Rightarrow> string \<Rightarrow> string \<Rightarrow> world \<Rightarrow> error option \<times> world" where
  "web_download_single_file en url dest_folder title w0 =
     (let w = emit (HttpGet url) w0 in
      case http_get en url of
        RequestException \<Rightarrow> (Some ValueError, w)
      | Response status ctype content \<Rightarrow>
          if response_ok status then
            (case ctype of
               None \<Rightarrow> (Some KeyError, w)
             | Some header \<Rightarrow>
                 (let file_extension =
                        (case guess_extension en (mime_type header) of
                           None \<Rightarrow> ''None'' | Some e \<Rightarrow> e);
                      file_path = joinpath dest_folder (title @ file_extension)
                  in case open_write file_path content (fs w) of
                       Inl e \<Rightarrow> (Some e, w)
                     | Inr fsys \<Rightarrow> (None, emit (FileWrite file_path) (w\<lparr>fs := fsys\<rparr>))))
          else (None, emit (DownloadFailed status) w))"

text \<open>
  \<^verbatim>\<open>_download\<close>: every task is submitted and runs, whatever happens to the others;
  then the results are collected in the order of submission and the first exception
  is raised. The model runs the tasks in that order.
\<close>

fun web_download :: "env \<Rightarrow> string \<Rightarrow> (string \<times> string) list \<Rightarrow> string \<Rightarrow> world \<Rightarrow> error option \<times> world" where
  "web_download en root [] dest_folder w = (None, w)"
| "web_download en root ((title, url) # data_dict) dest_folder w =
     (case web_download_single_file en (root @ url) dest_folder title w of
        (e, w1) \<Rightarrow>
          (case web_download en root data_dict dest_folder w1 of
             (e', w2) \<Rightarrow> ((case e of Some x \<Rightarrow> Some x | None \<Rightarrow> e'), w2)))"

text \<open>\<^verbatim>\<open>_get_links(_parse_html_table(url))\<close>: the listing page is read whatever its
  status.\<close>

definition get_links :: "env \<Rightarrow> string \<Rightarrow> world \<Rightarrow> (error + (string \<times> string) list) \<times> world" where
  "get_links en url w0 =
     (let w = emit (HttpGet url) w0 in
      case http_get en url of
        RequestException \<Rightarrow> (Inl ValueError, w)
      | Response status ctype content \<Rightarrow>
          (case table_links en content of
             None \<Rightarrow> (Inl LibraryError, w)
           | Some records \<Rightarrow> (Inr records, w)))"

text \<open>The loop over \<^verbatim>\<open>crawler.paths\<close>, then \<^verbatim>\<open>return loader.processed_texts\<close>.\<close>

fun web_paths :: "env \<Rightarrow> settings \<Rightarrow> string \<Rightarrow> string list \<Rightarrow> loader \<Rightarrow> world \<Rightarrow> (error + document list) \<times> world" where
  "web_paths en st temp_dir [] self w = (Inr (processed_texts w self), w)"
| "web_paths en st temp_dir (path # paths) self w =
     (case get_links en (crawler_root st @ path) w of
        (Inl e, w1) \<Rightarrow> (Inl e, w1)
      | (Inr records, w1) \<Rightarrow>
          (case web_download en (crawler_root st) records temp_dir w1 of
             (Some e, w2) \<Rightarrow> (Inl e, w2)
           | (None, w2) \<Rightarrow>
               (case load en self temp_dir w2 of
                  (Some e, w3) \<Rightarrow> (Inl e, w3)
                | (None, w3) \<Rightarrow>
                    (case process_and_check en self w3 of
                       Inl e \<Rightarrow> (Inl e, w3)
                     | Inr self' \<Rightarrow> web_paths en st temp_dir paths self' w3))))"

definition web_gather :: "env \<Rightarrow> settings \<Rightarrow> document list option \<Rightarrow> world \<Rightarrow> (error + document list) \<times> world" where
  "web_gather en st collection w0 =
     (if crawler_root st = [] \<or> crawler_paths st = [] then (Inl ValueError, w0)
      else
        (let ignored = exclusion collection;
             (tmpdirname, w) = enter_tmpdir en w0;
             self = DocumentLoader ignored st;
             w1 = emit (NewLoader (ignored_files self)) w
         in case web_paths en st tmpdirname (crawler_paths st) self w1 of
              (r, w2) \<Rightarrow> (r, exit_tmpdir tmpdirname w2)))"

subsection \<open>\<^verbatim>\<open>worker/workerbase.py\<close>: ingest\<close>

datatype worker = LocalWorker | UrlWorker string | WebWorker

text \<open>The abstract method \<^verbatim>\<open>_gather\<close>, resolved by the class of the worker.\<close>

fun gather :: "env \<Rightarrow> settings \<Rightarrow> worker \<Rightarrow> document list option \<Rightarrow> world \<Rightarrow> (error + document list) \<times> world" where
  "gather en st LocalWorker collection w = local_gather en st collection w"
| "gather en st (UrlWorker url) collection w = url_gather en st url collection w"
| "gather en st WebWorker collection w = web_gather en st collection w"

text \<open>
  \<^verbatim>\<open>ingest\<close>. \<^verbatim>\<open>NoNewDocumentsLoadedError\<close> is caught and gives \<^verbatim>\<open>False\<close>; every
  other exception leaves the method.
\<close>

definition ingest :: "env \<Rightarrow> settings \<Rightarrow> worker \<Rightarrow> world \<Rightarrow> (error + bool) \<times> world" where
  "ingest en st wk w0 =
     (let w = emit (Print ''Creating embeddings. May take some minutes...'') w0 in
      if does_vectorstore_exist st (fs w) then
        (let (db, w1) = get_vectorstore [] (emit (Print ''Appending to existing vectorstore'') w);
             collection = db;
             w2 = emit StoreGet w1
         in case gather en st wk (Some collection) w2 of
              (Inl e, w3) \<Rightarrow> ((if e = NoNewDocumentsLoadedError then Inr False else Inl e), w3)
            | (Inr texts, w3) \<Rightarrow>
                (Inr True, persist en st (db @ texts) (emit (StoreAdd texts) w3)))
      else
        (let w1 = emit (Print ''Creating new vectorstore'') w in
         case gather en st wk None w1 of
           (Inl e, w2) \<Rightarrow> ((if e = NoNewDocumentsLoadedError then Inr False else Inl e), w2)
         | (Inr texts, w2) \<Rightarrow>
             (case create_vectorstore texts w2 of
                (db, w3) \<Rightarrow> (Inr True, persist en st db w3))))"

subsection \<open>\<^verbatim>\<open>processor.py\<close>\<close>

text \<open>The keyword arguments \<^verbatim>\<open>__main__\<close> passes on: the settings and the value of
  \<^verbatim>\<open>--link\<close>, \<^verbatim>\<open>None\<close> when the option was not given.\<close>

record kwargs =
  kw_settings :: settings
  kw_links :: "string list option"

definition process_from_local :: "env \<Rightarrow> kwargs \<Rightarrow> world \<Rightarrow> (error + string) \<times> world" where
  "process_from_local en kw w =
     (case ingest en (kw_settings kw) LocalWorker w of
        (Inl e, w') \<Rightarrow> (Inl e, w')
      | (Inr b, w') \<Rightarrow>
          (Inr (if b then ''Files imported successfully''
                else ''No files were imported locally''), w'))"

definition process_from_web :: "env \<Rightarrow> kwargs \<Rightarrow> world \<Rightarrow> (error + string) \<times> world" where
  "process_from_web en kw w =
     (case ingest en (kw_settings kw) WebWorker w of
        (Inl e, w') \<Rightarrow> (Inl e, w')
      | (Inr b, w') \<Rightarrow>
          (Inr (if b then ''Automated download and import was successful''
                else ''No files were imported from the web''), w'))"

text \<open>The loop \<^verbatim>\<open>for link in links: success &= UrlWorker(link, settings).ingest()\<close>.\<close>

fun url_loop :: "env \<Rightarrow> settings \<Rightarrow> string list \<Rightarrow> bool \<Rightarrow> world \<Rightarrow> (error + bool) \<times> world" where
  "url_loop en st [] success w = (Inr success, w)"
| "url_loop en st (link # links) success w =
     (case ingest en st (UrlWorker link) w of
        (Inl e, w') \<Rightarrow> (Inl e, w')
      | (Inr b, w') \<Rightarrow> url_loop en st links (success \<and> b) w')"

definition url_direct_download :: "env \<Rightarrow> kwargs \<Rightarrow> world \<Rightarrow> (error + string) \<times> world" where
  "url_direct_download en kw w =
     (case kw_links kw of
        None \<Rightarrow> (Inl TypeError, w)
      | Some links \<Rightarrow>
          (case url_loop en (kw_settings kw) links True w of
             (Inl e, w') \<Rightarrow> (Inl e, w')
           | (Inr success, w') \<Rightarrow>
               (Inr (if success then ''Automated download and import was successful''
                     else ''A file was not imported from an URL''), w')))"

subsection \<open>\<^verbatim>\<open>enum/*.py\<close>, \<^verbatim>\<open>operator.py\<close>, \<^verbatim>\<open>ingestor.py\<close>: the dispatcher\<close>

datatype OperationsEnum = WEB | LOCAL | URL

text \<open>What a caller can pass as an operation key: a string or a member of the enum.\<close>

datatype key = Str string | Member OperationsEnum

text \<open>\<^verbatim>\<open>OperationsEnum(value)\<close>: the member with that value, a member itself, or
  \<^verbatim>\<open>ValueError\<close>.\<close>

definition OperationsEnum_of :: "key \<Rightarrow> error + OperationsEnum" where
  "OperationsEnum_of k =
     (case k of
        Member m \<Rightarrow> Inr m
      | Str s \<Rightarrow>
          if s = ''web'' then Inr WEB
          else if s = ''local'' then Inr LOCAL
          else if s = ''url'' then Inr URL
          else Inl ValueError)"

text \<open>\<^verbatim>\<open>MetaEnum.__contains__\<close>: \<^verbatim>\<open>item in OperationsEnum\<close>.\<close>

definition contains :: "key \<Rightarrow> bool" where
  "contains item = (case OperationsEnum_of item of Inl _ \<Rightarrow> False | Inr _ \<Rightarrow> True)"

text \<open>The dictionary \<^verbatim>\<open>Operation.operations\<close>.\<close>

fun operations :: "OperationsEnum \<Rightarrow> env \<Rightarrow> kwargs \<Rightarrow> world \<Rightarrow> (error + string) \<times> world" where
  "operations WEB = process_from_web"
| "operations LOCAL = process_from_local"
| "operations URL = url_direct_download"

definition perform_operation :: "env \<Rightarrow> key \<Rightarrow> kwargs \<Rightarrow> world \<Rightarrow> (error + string) \<times> world" where
  "perform_operation en operation_key kw w =
     (if contains operation_key then
        (case OperationsEnum_of operation_key of
           Inl e \<Rightarrow> (Inl e, w)
         | Inr m \<Rightarrow> operations m en kw w)
      else (Inl InvalidOperationKeyError, w))"

text \<open>
  \<^verbatim>\<open>ingest(arg, **kwargs)\<close> of \<^verbatim>\<open>ingestor.py\<close>. The argument is turned into a member
  of the enum first, to look the operation up; every entry of the dictionary is
  callable.
\<close>

definition ingestor_ingest :: "env \<Rightarrow> string \<Rightarrow> kwargs \<Rightarrow> world \<Rightarrow> (error + string) \<times> world" where
  "ingestor_ingest en arg kw w =
     (case OperationsEnum_of (Str arg) of
        Inl e \<Rightarrow> (Inl e, w)
      | Inr m \<Rightarrow> perform_operation en (Member m) kw w)"

subsection \<open>\<^verbatim>\<open>utils.py\<close>: merge\<close>

text \<open>
  A configuration value as YAML gives it: a scalar, a list, or a mapping with its keys
  in order.
\<close>

datatype cfg = Scalar string | CList "cfg list" | CDict "(string \<times> cfg) list"

text \<open>
  Modelled from the spec: \<^verbatim>\<open>always_merger\<close> of the package \<^verbatim>\<open>deepmerge\<close>, which
  \<^verbatim>\<open>merge\<close> calls and which is not part of the repository. The spec's words are
  "user values win on conflicting scalar keys; nested mappings merge recursively";
  the package adds that two lists are concatenated and that values of different
  kinds are overridden. Merging a mapping walks the entries of the second mapping in
  order: a new key is added at the end, a known key gets the merged value in place.
\<close>

function always_merge :: "cfg \<Rightarrow> cfg \<Rightarrow> cfg"
  and dict_merge :: "(string \<times> cfg) list \<Rightarrow> (string \<times> cfg) list \<Rightarrow> (string \<times> cfg) list" where
  "always_merge (CDict base) (CDict nxt) = CDict (dict_merge base nxt)"
| "always_merge (CList base) (CList nxt) = CList (base @ nxt)"
| "always_merge (Scalar a) nxt = nxt"
| "always_merge (CList base) (Scalar b) = Scalar b"
| "always_merge (CList base) (CDict nxt) = CDict nxt"
| "always_merge (CDict base) (Scalar b) = Scalar b"
| "always_merge (CDict base) (CList nxt) = CList nxt"
| "dict_merge base [] = base"
| "dict_merge base ((k, v) # nxt) =
     dict_merge
       (case map_of base k of
          None \<Rightarrow> base @ [(k, v)]
        | Some bv \<Rightarrow> AList.update k (always_merge bv v) base)
       nxt"
  by pat_completeness auto
termination
  by (relation "measure (\<lambda>x. case x of Inl (b, n) \<Rightarrow> size n
                               | Inr (b, n) \<Rightarrow> size_list (size_prod (\<lambda>_. 0) size) n)") auto

text \<open>\<^verbatim>\<open>merge(a, b)\<close>: both mappings are merged into a new, empty one, \<open>a\<close> first.\<close>

definition merge :: "(string \<times> cfg) list \<Rightarrow> (string \<times> cfg) list \<Rightarrow> (string \<times> cfg) list" where
  "merge a b = dict_merge (dict_merge [] a) b"

subsection \<open>Observations\<close>

text \<open>The exclusion lists of the loaders constructed, in order.\<close>

definition loaders :: "event list \<Rightarrow> string list list" where
  "loaders tr = concat (map (\<lambda>e. case e of NewLoader ig \<Rightarrow> [ig] | _ \<Rightarrow> []) tr)"

text \<open>A step that neither calls the store, nor constructs a loader, nor changes what
  is stored.\<close>

definition same_store :: "world \<Rightarrow> world \<Rightarrow> bool" where
  "same_store w w' =
     (store_ops (trace w') = store_ops (trace w) \<and> loaders (trace w') = loaders (trace w)
      \<and> persisted w' = persisted w)"

text \<open>What a \<^verbatim>\<open>_gather\<close> called with \<open>c\<close> may do: no call on the store, and at most
  one loader, constructed with the exclusion list of \<open>c\<close>.\<close>

definition gather_frame :: "document list option \<Rightarrow> world \<Rightarrow> world \<Rightarrow> bool" where
  "gather_frame c w w' =
     (store_ops (trace w') = store_ops (trace w) \<and> persisted w' = persisted w
      \<and> (loaders (trace w') = loaders (trace w)
         \<or> loaders (trace w') = loaders (trace w) @ [exclusion c]))"

text \<open>The argument and the world with which \<^verbatim>\<open>ingest\<close> calls \<^verbatim>\<open>_gather\<close>.\<close>

definition gather_call :: "settings \<Rightarrow> world \<Rightarrow> document list option \<times> world" where
  "gather_call st w0 =
     (let w = emit (Print ''Creating embeddings. May take some minutes...'') w0 in
      if does_vectorstore_exist st (fs w) then
        (Some (persisted w),
         emit StoreGet (emit StoreOpen (emit (Print ''Appending to existing vectorstore'') w)))
      else (None, emit (Print ''Creating new vectorstore'') w))"

subsection \<open>An example installation\<close>

text \<open>
  Settings with Chroma's file names, a text loader, a splitter that leaves a short
  text in one piece, a small web, and a source directory with one file. The examples
  below run the code on it.
\<close>

definition ex_settings :: settings where
  "ex_settings = \<lparr>textsplitter_size = 500, textsplitter_overlap = 50,
     sourcedocuments = ''docs'', crawler_root = ''http://h'', crawler_paths = [''/p''],
     persist_directory = ''db'', vectorstore_index = ''index'',
     vectorstore_bin = ''*.bin'', vectorstore_pickle = ''*.pkl'',
     parquet_collections = ''chroma-collections.parquet'',
     parquet_embeddings = ''chroma-embeddings.parquet''\<rparr>"

definition ex_http :: "string \<Rightarrow> http_result" where
  "ex_http url =
     (if url = ''http://h/a.txt'' then Response 200 (Some ''text/plain'') ''alpha''
      else if url = ''http://h/b.txt'' then Response 500 (Some ''text/html'') ''failure''
      else if url = ''http://h/c.txt'' then Response 200 (Some ''text/plain; charset=utf-8'') ''gamma''
      else if url = ''http://h/m.txt'' then Response 300 (Some ''text/html'') ''choices''
      else if url = ''http://h/p'' then Response 200 (Some ''text/html'') ''page''
      else RequestException)"

definition ex_env :: env where
  "ex_env = \<lparr>loader_parse = (\<lambda>ext raw. Some raw),
     split_text = (\<lambda>sz ov t. if t = [] then [] else [t]),
     http_get = ex_http,
     table_links = (\<lambda>page. if page = ''page''
        then Some [(''No 1'', ''/a.txt''), (''No 2'', ''/b.txt''), (''No 3'', ''/c.txt'')]
        else None),
     guess_extension = (\<lambda>m. if m = ''text/plain'' then Some ''.txt'' else None),
     mkdtemp = (\<lambda>n. ''/tmp/t'' @ replicate n (CHR ''x'')),
     chroma_artifacts = (\<lambda>d. [(d, Dir), (d @ ''/index'', Dir),
        (d @ ''/chroma-collections.parquet'', File []),
        (d @ ''/chroma-embeddings.parquet'', File []),
        (d @ ''/index/index.bin'', File []),
        (d @ ''/index/id_to_uuid.pkl'', File []),
        (d @ ''/index/uuid_to_id.pkl'', File []),
        (d @ ''/index/index_metadata.pkl'', File [])])\<rparr>"

definition ex_world :: world where
  "ex_world = \<lparr>fs = [(''docs'', Dir), (''docs/a.txt'', File ''alpha''), (''/tmp'', Dir)],
     persisted = [], cls_documents = [], cls_processed_texts = [], tmp_seq = 0, trace = []\<rparr>"

definition ex_chunk_a :: document where
  "ex_chunk_a = \<lparr>page_content = ''alpha'', source = ''docs/a.txt''\<rparr>"

text \<open>The example with a persistence directory that lacks one index file, and with a
  store that holds the chunk of \<^verbatim>\<open>a.txt\<close> beside the files \<^verbatim>\<open>a.txt\<close> and
  \<^verbatim>\<open>b.txt\<close>.\<close>

definition ex_world_two_index_files :: world where
  "ex_world_two_index_files = ex_world\<lparr>fs := fs ex_world @
     [(''db'', Dir), (''db/index'', Dir),
      (''db/chroma-collections.parquet'', File []),
      (''db/chroma-embeddings.parquet'', File []),
      (''db/index/index.bin'', File []),
      (''db/index/index_metadata.pkl'', File [])],
     persisted := [\<lparr>page_content = ''old'', source = ''docs/a.txt''\<rparr>]\<rparr>"



text \<open>The example's first loader, the world after it has loaded the source directory,
  and the loader after \<^verbatim>\<open>process\<close>.\<close>

definition ex_loader :: loader where
  "ex_loader = DocumentLoader [] ex_settings"

definition ex_world_loaded :: world where
  "ex_world_loaded = snd (load ex_env ex_loader ''docs'' ex_world)"

definition ex_loader_processed :: loader where
  "ex_loader_processed = ex_loader\<lparr>self_processed_texts := Some [ex_chunk_a]\<rparr>"

subsection \<open>The passes of the url operation\<close>



text \<open>The url operation on a link that answers 500 and one that answers 200.\<close>

definition ex_kwargs :: kwargs where
  "ex_kwargs = \<lparr>kw_settings = ex_settings, kw_links = Some [''http://h/b.txt'', ''http://h/a.txt'']\<rparr>"

subsection \<open>Downloads\<close>






subsection \<open>Configurations\<close>

text \<open>A value that Python can hold: no mapping in it, at any depth, has a key twice.\<close>

fun valid :: "cfg \<Rightarrow> bool" where
  "valid (Scalar s) = True"
| "valid (CList xs) = (\<forall>x \<in> set xs. valid x)"
| "valid (CDict kvs) = (distinct (map fst kvs) \<and> (\<forall>kv \<in> set kvs. valid (snd kv)))"

text \<open>A default configuration and a user's configuration.\<close>

definition ex_default :: "(string \<times> cfg) list" where
  "ex_default =
     [(''sourcedocuments'', Scalar ''docs''),
      (''textsplitter'', CDict [(''size'', Scalar ''500''), (''overlap'', Scalar ''50'')]),
      (''crawler'', CDict [(''root'', Scalar ''''), (''paths'', CList [])])]"

definition ex_user :: "(string \<times> cfg) list" where
  "ex_user =
     [(''textsplitter'', CDict [(''size'', Scalar ''1000'')]),
      (''sourcedocuments'', Scalar ''library''),
      (''chat'', Scalar ''off'')]"

subsection \<open>Processes\<close>

text \<open>A new Python process on the same machine: the class body of \<^verbatim>\<open>DocumentLoader\<close>
  runs again, everything else is as it was left.\<close>

definition new_process :: "world \<Rightarrow> world" where
  "new_process w = w\<lparr>cls_documents := [], cls_processed_texts := []\<rparr>"

text \<open>What \<^verbatim>\<open>LocalWorker._gather\<close> returns or raises, as a function of the file
  system, the exclusion list and the documents already in the class attribute.\<close>

definition local_outcome ::
  "env \<Rightarrow> settings \<Rightarrow> filesystem \<Rightarrow> string list \<Rightarrow> document list \<Rightarrow> error + document list" where
  "local_outcome en st fsys ignored docs0 =
     (if \<not> path_exists fsys (sourcedocuments st) then Inl FileNotFoundError
      else
        (case append_results
                (map (load_single_document en fsys)
                   [p \<leftarrow> all_files fsys (sourcedocuments st). p \<notin> set ignored]) docs0 of
           (Some e, docs) \<Rightarrow> Inl e
         | (None, docs) \<Rightarrow>
             if docs = [] then Inl NoNewDocumentsLoadedError
             else if split_documents en (textsplitter_size st) (textsplitter_overlap st) docs = []
             then Inl NoNewDocumentsLoadedError
             else Inr (split_documents en (textsplitter_size st) (textsplitter_overlap st) docs)))"

text \<open>Two file systems with the same source documents.\<close>

definition same_sources :: "settings \<Rightarrow> filesystem \<Rightarrow> filesystem \<Rightarrow> bool" where
  "same_sources st f f' =
     (path_exists f' (sourcedocuments st) = path_exists f (sourcedocuments st)
      \<and> all_files f' (sourcedocuments st) = all_files f (sourcedocuments st)
      \<and> list_all (\<lambda>p. map_of f' p = map_of f p) (all_files f (sourcedocuments st)))"

section \<open>Properties\<close>

subsection \<open>Frame lemmas\<close>

text \<open>Loading, downloading and crawling never call the store.\<close>

lemma same_store_refl: "same_store w w"
  by (simp add: same_store_def)

lemma same_store_trans: "same_store a b \<Longrightarrow> same_store b c \<Longrightarrow> same_store a c"
  by (simp add: same_store_def)

lemma same_store_emit:
  "\<not> is_store_op e \<Longrightarrow> (\<And>ig. e \<noteq> NewLoader ig) \<Longrightarrow> same_store w (emit e w)"
  by (cases e) (auto simp: same_store_def emit_def store_ops_def loaders_def)

lemma load_same_store: "load en self d w = (r, w') \<Longrightarrow> same_store w w'"
  by (auto simp: load_def Let_def same_store_def emit_def store_ops_def loaders_def split: prod.splits)

lemma url_download_same_store: "url_download en url dest w = (r, w') \<Longrightarrow> same_store w w'"
  by (auto simp: url_download_def url_download_single_file_def Let_def same_store_def emit_def
      store_ops_def loaders_def split: http_result.splits sum.splits if_splits)

lemma web_download_single_file_same_store:
  "web_download_single_file en url dest title w = (r, w') \<Longrightarrow> same_store w w'"
  by (auto simp: web_download_single_file_def Let_def same_store_def emit_def
      store_ops_def loaders_def split: http_result.splits sum.splits if_splits option.splits)

lemma web_download_same_store:
  "web_download en root recs dest w = (r, w') \<Longrightarrow> same_store w w'"
proof (induction recs arbitrary: w r w')
  case Nil
  then show ?case by (simp add: same_store_refl)
next
  case (Cons a recs)
  obtain title url where a: "a = (title, url)" by (cases a)
  obtain e w1 where s: "web_download_single_file en (root @ url) dest title w = (e, w1)"
    by (cases "web_download_single_file en (root @ url) dest title w")
  obtain e' w2 where t: "web_download en root recs dest w1 = (e', w2)"
    by (cases "web_download en root recs dest w1")
  from Cons.prems a s t have "w' = w2" by simp
  with Cons.IH[OF t] web_download_single_file_same_store[OF s] show ?case
    by (auto intro: same_store_trans)
qed

lemma get_links_same_store: "get_links en url w = (r, w') \<Longrightarrow> same_store w w'"
  by (auto simp: get_links_def Let_def same_store_def emit_def store_ops_def loaders_def
      split: http_result.splits option.splits)

text \<open>One round of the loop over the crawl paths.\<close>

lemma web_paths_Cons_cases:
  assumes "web_paths en st tmp (path # paths) self w = (r, w')"
  obtains (stop) e where "r = Inl e" "same_store w w'"
  | (continue) self' w3 where "same_store w w3" "process_and_check en self w3 = Inr self'"
      "web_paths en st tmp paths self' w3 = (r, w')"
proof -
  obtain g w1 where gl: "get_links en (crawler_root st @ path) w = (g, w1)"
    by (cases "get_links en (crawler_root st @ path) w")
  note s1 = get_links_same_store[OF gl]
  show ?thesis
  proof (cases g)
    case (Inl e)
    with assms gl s1 stop show ?thesis by auto
  next
    case (Inr records)
    obtain d w2 where dl: "web_download en (crawler_root st) records tmp w1 = (d, w2)"
      by (cases "web_download en (crawler_root st) records tmp w1")
    note s2 = same_store_trans[OF s1 web_download_same_store[OF dl]]
    show ?thesis
    proof (cases d)
      case (Some e)
      with assms gl Inr dl s2 stop show ?thesis by auto
    next
      case None
      obtain l w3 where ld: "load en self tmp w2 = (l, w3)"
        by (cases "load en self tmp w2")
      note s3 = same_store_trans[OF s2 load_same_store[OF ld]]
      show ?thesis
      proof (cases l)
        case (Some e)
        with assms gl Inr dl None ld s3 stop show ?thesis by auto
      next
        case lnone: None
        show ?thesis
        proof (cases "process_and_check en self w3")
          case (Inl e)
          with assms gl Inr dl None ld lnone s3 stop show ?thesis by auto
        next
          case pc: (Inr self')
          with assms gl Inr dl None ld lnone
          have "web_paths en st tmp paths self' w3 = (r, w')" by simp
          with s3 pc continue show ?thesis by auto
        qed
      qed
    qed
  qed
qed

lemma web_paths_same_store:
  "web_paths en st tmp paths self w = (r, w') \<Longrightarrow> same_store w w'"
proof (induction paths arbitrary: self w)
  case Nil
  then show ?case by (auto simp: same_store_refl)
next
  case (Cons path paths)
  from Cons.prems show ?case
  proof (cases rule: web_paths_Cons_cases)
    case (stop e)
    then show ?thesis by simp
  next
    case (continue self' w3)
    with Cons.IH[OF continue(3)] show ?thesis by (auto intro: same_store_trans)
  qed
qed

lemma process_and_check_nonempty:
  "process_and_check en self w = Inr self' \<Longrightarrow> processed_texts w self' \<noteq> []"
  by (auto simp: process_and_check_def split: sum.splits if_splits)

lemma web_paths_nonempty:
  "web_paths en st tmp paths self w = (Inr texts, w') \<Longrightarrow>
     (paths = [] \<Longrightarrow> processed_texts w self \<noteq> []) \<Longrightarrow> texts \<noteq> []"
proof (induction paths arbitrary: self w)
  case Nil
  then show ?case by auto
next
  case (Cons path paths)
  from Cons.prems(1) show ?case
  proof (cases rule: web_paths_Cons_cases)
    case (stop e)
    then show ?thesis by simp
  next
    case (continue self' w3)
    have "processed_texts w3 self' \<noteq> []"
      using continue(2) by (rule process_and_check_nonempty)
    with Cons.IH[OF continue(3)] show ?thesis by simp
  qed
qed

lemma same_store_after_NewLoader:
  "same_store (emit (NewLoader (exclusion c)) w) w' \<Longrightarrow> same_store w0 w \<Longrightarrow> gather_frame c w0 w'"
  by (auto simp: same_store_def gather_frame_def emit_def store_ops_def loaders_def)

lemma enter_tmpdir_same_store: "enter_tmpdir en w = (d, w') \<Longrightarrow> same_store w w'"
  by (auto simp: enter_tmpdir_def Let_def same_store_def)

lemma gather_frame_exit_tmpdir: "gather_frame c w (exit_tmpdir d w') = gather_frame c w w'"
  by (simp add: exit_tmpdir_def gather_frame_def)

lemma ignored_files_DocumentLoader: "ignored_files (DocumentLoader ig st) = ig"
  by (simp add: DocumentLoader_def)

lemma local_gather_frame: "local_gather en st c w = (r, w') \<Longrightarrow> gather_frame c w w'"
proof -
  assume a: "local_gather en st c w = (r, w')"
  let ?w = "emit (Print ''gathering documents'') w"
  have s0: "same_store w ?w" by (simp add: same_store_emit)
  show ?thesis
  proof (cases "path_exists (fs ?w) (sourcedocuments st)")
    case False
    with a have "w' = ?w" by (simp add: local_gather_def Let_def)
    with s0 show ?thesis by (simp add: gather_frame_def same_store_def)
  next
    case True
    let ?self = "DocumentLoader (exclusion c) st"
    let ?w1 = "emit (NewLoader (exclusion c)) ?w"
    obtain l w2 where ld: "load en ?self (sourcedocuments st) ?w1 = (l, w2)"
      by (cases "load en ?self (sourcedocuments st) ?w1")
    from a True ld have "w' = w2"
      by (auto simp: local_gather_def Let_def ignored_files_DocumentLoader
          split: option.splits sum.splits)
    with load_same_store[OF ld] s0 show ?thesis
      by (auto intro: same_store_after_NewLoader)
  qed
qed

lemma url_gather_frame: "url_gather en st url c w = (r, w') \<Longrightarrow> gather_frame c w w'"
proof -
  assume a: "url_gather en st url c w = (r, w')"
  obtain d wt where et: "enter_tmpdir en w = (d, wt)" by (cases "enter_tmpdir en w")
  note s0 = enter_tmpdir_same_store[OF et]
  let ?self = "DocumentLoader (exclusion c) st"
  let ?w1 = "emit (NewLoader (exclusion c)) wt"
  obtain e w2 where dl: "url_download en url d ?w1 = (e, w2)"
    by (cases "url_download en url d ?w1")
  note s2 = url_download_same_store[OF dl]
  show ?thesis
  proof (cases e)
    case (Some x)
    with a et dl have "w' = exit_tmpdir d w2"
      by (simp add: url_gather_def Let_def ignored_files_DocumentLoader)
    with s0 s2 show ?thesis
      by (auto simp: gather_frame_exit_tmpdir intro: same_store_after_NewLoader)
  next
    case None
    obtain l w3 where ld: "load en ?self d w2 = (l, w3)" by (cases "load en ?self d w2")
    from a et dl None ld have "w' = exit_tmpdir d w3"
      by (auto simp: url_gather_def Let_def ignored_files_DocumentLoader
          split: option.splits sum.splits)
    with s0 same_store_trans[OF s2 load_same_store[OF ld]] show ?thesis
      by (auto simp: gather_frame_exit_tmpdir intro: same_store_after_NewLoader)
  qed
qed

lemma web_gather_frame: "web_gather en st c w = (r, w') \<Longrightarrow> gather_frame c w w'"
proof -
  assume a: "web_gather en st c w = (r, w')"
  show ?thesis
  proof (cases "crawler_root st = [] \<or> crawler_paths st = []")
    case True
    with a have "w' = w" by (simp add: web_gather_def)
    then show ?thesis by (simp add: gather_frame_def)
  next
    case False
    obtain d wt where et: "enter_tmpdir en w = (d, wt)" by (cases "enter_tmpdir en w")
    note s0 = enter_tmpdir_same_store[OF et]
    let ?self = "DocumentLoader (exclusion c) st"
    let ?w1 = "emit (NewLoader (exclusion c)) wt"
    obtain r2 w2 where wp: "web_paths en st d (crawler_paths st) ?self ?w1 = (r2, w2)"
      by (cases "web_paths en st d (crawler_paths st) ?self ?w1")
    from a False et wp have "w' = exit_tmpdir d w2"
      by (auto simp: web_gather_def Let_def ignored_files_DocumentLoader)
    with s0 web_paths_same_store[OF wp] show ?thesis
      by (auto simp: gather_frame_exit_tmpdir intro: same_store_after_NewLoader)
  qed
qed

lemma gather_gather_frame: "gather en st wk c w = (r, w') \<Longrightarrow> gather_frame c w w'"
  by (cases wk) (auto intro: local_gather_frame url_gather_frame web_gather_frame)

lemma local_gather_nonempty: "local_gather en st c w = (Inr texts, w') \<Longrightarrow> texts \<noteq> []"
  by (auto simp: local_gather_def Let_def
      split: prod.splits option.splits sum.splits if_splits dest!: process_and_check_nonempty)

lemma url_gather_nonempty: "url_gather en st url c w = (Inr texts, w') \<Longrightarrow> texts \<noteq> []"
  by (auto simp: url_gather_def Let_def
      split: prod.splits option.splits sum.splits dest!: process_and_check_nonempty)

lemma web_gather_nonempty: "web_gather en st c w = (Inr texts, w') \<Longrightarrow> texts \<noteq> []"
  by (auto simp: web_gather_def Let_def split: prod.splits if_splits
      dest!: web_paths_nonempty)

lemma gather_nonempty: "gather en st wk c w = (Inr texts, w') \<Longrightarrow> texts \<noteq> []"
  by (cases wk) (auto dest: local_gather_nonempty url_gather_nonempty web_gather_nonempty)

lemma ingest_by_gather_call:
  "ingest en st wk w =
     (case gather_call st w of
        (coll, wg) \<Rightarrow>
          (case gather en st wk coll wg of
             (Inl e, w1) \<Rightarrow> ((if e = NoNewDocumentsLoadedError then Inr False else Inl e), w1)
           | (Inr texts, w1) \<Rightarrow>
               (Inr True,
                (case coll of
                   Some db \<Rightarrow> persist en st (db @ texts) (emit (StoreAdd texts) w1)
                 | None \<Rightarrow> persist en st (persisted w1 @ texts) (emit (StoreCreate texts) w1)))))"
proof (cases "does_vectorstore_exist st (fs w)")
  case True
  then show ?thesis
    by (simp add: ingest_def gather_call_def Let_def get_vectorstore_def emit_def
        split: prod.splits sum.splits)
next
  case False
  then show ?thesis
    by (auto simp: ingest_def gather_call_def Let_def get_vectorstore_def create_vectorstore_def
        emit_def split: prod.splits sum.splits dest: gather_nonempty)
qed

subsection \<open>C3: the store is touched only for new documents\<close>

text \<open>
  Claim C3. Let \<^verbatim>\<open>ingest\<close> call \<^verbatim>\<open>_gather\<close> with the collection \<open>coll\<close> (\<open>None\<close> in
  fresh mode). If gathering ends with \<^verbatim>\<open>NoNewDocumentsLoadedError\<close>, \<^verbatim>\<open>ingest\<close>
  returns \<^verbatim>\<open>False\<close> and its calls on the store are none (fresh mode) or the opening
  and reading of the existing store (append mode): nothing is added, created or
  persisted. If gathering returns chunks, \<^verbatim>\<open>ingest\<close> returns \<^verbatim>\<open>True\<close> and its calls
  on the store are exactly one \<^verbatim>\<open>add_documents\<close> (append mode) or one
  \<^verbatim>\<open>from_documents\<close> (fresh mode) with these chunks, followed by exactly one
  \<^verbatim>\<open>persist\<close>. This holds for the three workers. (When gathering raises another
  exception, \<^verbatim>\<open>ingest\<close> raises it, and again nothing is added, created or
  persisted.)
\<close>

theorem ingest_commits_only_new_documents:
  assumes "gather_call st w = (coll, wg)" and "gather en st wk coll wg = (g, w1)"
  shows "(g = Inl NoNewDocumentsLoadedError \<longrightarrow>
            ingest en st wk w = (Inr False, w1)
            \<and> store_ops (trace w1) =
                store_ops (trace w) @ (if coll = None then [] else [StoreOpen, StoreGet]))
       \<and> (\<forall>texts. g = Inr texts \<longrightarrow>
            fst (ingest en st wk w) = Inr True
            \<and> store_ops (trace (snd (ingest en st wk w))) =
                store_ops (trace w) @
                  (if coll = None then [StoreCreate texts, StorePersist]
                   else [StoreOpen, StoreGet, StoreAdd texts, StorePersist]))
       \<and> (\<forall>e. g = Inl e \<longrightarrow> e \<noteq> NoNewDocumentsLoadedError \<longrightarrow>
            ingest en st wk w = (Inl e, w1)
            \<and> store_ops (trace w1) =
                store_ops (trace w) @ (if coll = None then [] else [StoreOpen, StoreGet]))"
proof -
  from assms(2) have gf: "store_ops (trace w1) = store_ops (trace wg)"
    by (auto dest: gather_gather_frame simp: gather_frame_def)
  from assms(1) have cg: "store_ops (trace wg) =
      store_ops (trace w) @ (if coll = None then [] else [StoreOpen, StoreGet])"
    by (auto simp: gather_call_def Let_def emit_def store_ops_def split: if_splits)
  show ?thesis
    using assms gf cg
    by (auto simp: ingest_by_gather_call persist_def emit_def store_ops_def split: option.splits)
qed

text \<open>The example: a fresh store and one file. The chunk of the file is handed to
  \<^verbatim>\<open>from_documents\<close>, and the store is persisted once.\<close>

theorem ingest_commits_only_new_documents_witness:
  "fst (gather ex_env ex_settings LocalWorker (fst (gather_call ex_settings ex_world))
          (snd (gather_call ex_settings ex_world))) = Inr [ex_chunk_a]
   \<and> fst (gather_call ex_settings ex_world) = None
   \<and> fst (ingest ex_env ex_settings LocalWorker ex_world) = Inr True
   \<and> store_ops (trace (snd (ingest ex_env ex_settings LocalWorker ex_world))) =
       [StoreCreate [ex_chunk_a], StorePersist]"
proof -
  let ?c = "gather_call ex_settings ex_world"
  let ?g = "gather ex_env ex_settings LocalWorker (fst ?c) (snd ?c)"
  have g: "fst ?g = Inr [ex_chunk_a]" by code_simp
  have c: "fst ?c = None" by code_simp
  have t: "store_ops (trace ex_world) = []" by code_simp
  have "?c = (fst ?c, snd ?c)" and "?g = (fst ?g, snd ?g)" by simp_all
  from ingest_commits_only_new_documents[OF this] g c t show ?thesis by simp
qed

subsection \<open>C1: re-ingestion in one process\<close>

text \<open>
  Claim C1 says that a second local ingestion adds nothing and returns \<^verbatim>\<open>False\<close>.
  In one process it does not: the documents of the first run are still in the class
  attribute \<^verbatim>\<open>DocumentLoader.documents\<close>, so \<^verbatim>\<open>process\<close> does not raise, their
  chunks are added again, and \<^verbatim>\<open>ingest\<close> returns \<^verbatim>\<open>True\<close>. On the example the
  store holds one chunk after the first run and two after the second, and the
  dispatcher, asked for \<^verbatim>\<open>local\<close> twice, reports an import both times.
\<close>

theorem reingestion_in_one_process_duplicates:
  "fst (ingest ex_env ex_settings LocalWorker ex_world) = Inr True
   \<and> persisted (snd (ingest ex_env ex_settings LocalWorker ex_world)) = [ex_chunk_a]
   \<and> fst (ingest ex_env ex_settings LocalWorker
            (snd (ingest ex_env ex_settings LocalWorker ex_world))) = Inr True
   \<and> persisted (snd (ingest ex_env ex_settings LocalWorker
            (snd (ingest ex_env ex_settings LocalWorker ex_world)))) = [ex_chunk_a, ex_chunk_a]
   \<and> fst (ingestor_ingest ex_env ''local'' ex_kwargs
            (snd (ingestor_ingest ex_env ''local'' ex_kwargs ex_world))) =
         Inr ''Files imported successfully''"
  by code_simp

subsection \<open>C4: the store exists when four conditions hold\<close>

lemma gather_call_frame:
  "gather_call st w = (coll, wg) \<Longrightarrow>
     persisted wg = persisted w \<and> loaders (trace wg) = loaders (trace w)
     \<and> (coll = None \<longleftrightarrow> \<not> does_vectorstore_exist st (fs w))
     \<and> (coll \<noteq> None \<longrightarrow> coll = Some (persisted w))
     \<and> store_ops (trace wg) =
         store_ops (trace w) @ (if coll = None then [] else [StoreOpen, StoreGet])"
  by (auto simp: gather_call_def Let_def emit_def store_ops_def loaders_def split: if_splits)

lemma ingest_store_ops:
  assumes "ingest en st wk w = (r, w')"
  shows "(\<not> does_vectorstore_exist st (fs w) \<longrightarrow>
            (store_ops (trace w') = store_ops (trace w)
             \<or> (\<exists>texts. store_ops (trace w') = store_ops (trace w) @ [StoreCreate texts, StorePersist]))
            \<and> (loaders (trace w') = loaders (trace w)
               \<or> loaders (trace w') = loaders (trace w) @ [[]]))
       \<and> (does_vectorstore_exist st (fs w) \<longrightarrow>
            (store_ops (trace w') = store_ops (trace w) @ [StoreOpen, StoreGet]
             \<or> (\<exists>texts. store_ops (trace w') =
                   store_ops (trace w) @ [StoreOpen, StoreGet, StoreAdd texts, StorePersist]))
            \<and> (loaders (trace w') = loaders (trace w)
               \<or> loaders (trace w') = loaders (trace w) @ [map source (persisted w)]))"
proof -
  obtain coll wg where gc: "gather_call st w = (coll, wg)" by (cases "gather_call st w")
  obtain g w1 where ga: "gather en st wk coll wg = (g, w1)" by (cases "gather en st wk coll wg")
  note cf = gather_call_frame[OF gc]
  note gf = gather_gather_frame[OF ga, unfolded gather_frame_def]
  have w': "store_ops (trace w') = store_ops (trace w1) \<and> loaders (trace w') = loaders (trace w1)
     \<or> (\<exists>texts. g = Inr texts \<and> loaders (trace w') = loaders (trace w1) \<and> store_ops (trace w') = store_ops (trace w1) @
           (if coll = None then [StoreCreate texts, StorePersist] else [StoreAdd texts, StorePersist]))"
    using assms gc ga
    by (auto simp: ingest_by_gather_call persist_def emit_def store_ops_def loaders_def
        split: sum.splits option.splits if_splits)
  show ?thesis
  proof (cases "does_vectorstore_exist st (fs w)")
    case True
    with cf have c: "coll = Some (persisted w)" by auto
    with True cf gf w' show ?thesis by (auto simp: exclusion_def)
  next
    case False
    with cf have c: "coll = None" by auto
    with False cf gf w' show ?thesis by (auto simp: exclusion_def)
  qed
qed

text \<open>
  Claim C4. The check returns true if and only if the index path is a directory, the
  collections file and the embeddings file are files, and the index directory has at
  least three index files, counted as \<^verbatim>\<open>get_files\<close> lists them: the matches of
  the bin pattern followed by the matches of the pickle pattern. When the check
  fails, \<^verbatim>\<open>ingest\<close> never opens, reads or adds to a store: its calls on the store
  are none, or one \<^verbatim>\<open>from_documents\<close> and one \<^verbatim>\<open>persist\<close>, and a loader it
  constructs has the empty exclusion list. When the check succeeds, the run opens
  and reads the store, and the exclusion list is the sources stored.
\<close>

theorem store_exists_iff_four_conditions:
  "(does_vectorstore_exist st fsys \<longleftrightarrow>
      is_dir fsys (joinpath (persist_directory st) (vectorstore_index st))
      \<and> is_file fsys (joinpath (persist_directory st) (parquet_collections st))
      \<and> is_file fsys (joinpath (persist_directory st) (parquet_embeddings st))
      \<and> 3 \<le> length (path_glob fsys (joinpath (persist_directory st) (vectorstore_index st))
                        (vectorstore_bin st))
             + length (path_glob fsys (joinpath (persist_directory st) (vectorstore_index st))
                        (vectorstore_pickle st)))
   \<and> (\<not> does_vectorstore_exist st (fs w) \<longrightarrow>
        (store_ops (trace (snd (ingest en st wk w))) = store_ops (trace w)
         \<or> (\<exists>texts. store_ops (trace (snd (ingest en st wk w))) =
               store_ops (trace w) @ [StoreCreate texts, StorePersist]))
        \<and> (loaders (trace (snd (ingest en st wk w))) = loaders (trace w)
           \<or> loaders (trace (snd (ingest en st wk w))) = loaders (trace w) @ [[]]))
   \<and> (does_vectorstore_exist st (fs w) \<longrightarrow>
        (store_ops (trace (snd (ingest en st wk w))) = store_ops (trace w) @ [StoreOpen, StoreGet]
         \<or> (\<exists>texts. store_ops (trace (snd (ingest en st wk w))) =
               store_ops (trace w) @ [StoreOpen, StoreGet, StoreAdd texts, StorePersist]))
        \<and> (loaders (trace (snd (ingest en st wk w))) = loaders (trace w)
           \<or> loaders (trace (snd (ingest en st wk w))) =
               loaders (trace w) @ [map source (persisted w)]))"
proof -
  have "ingest en st wk w = (fst (ingest en st wk w), snd (ingest en st wk w))" by simp
  from ingest_store_ops[OF this] show ?thesis
    by (simp add: does_vectorstore_exist_def get_files_def Let_def)
qed

text \<open>A persistence directory with everything but a third index file: a fresh
  store is created.\<close>

theorem store_exists_iff_four_conditions_witness:
  "\<not> does_vectorstore_exist ex_settings (fs ex_world_two_index_files)
   \<and> length (path_glob (fs ex_world_two_index_files) ''db/index'' ''*.bin'')
       + length (path_glob (fs ex_world_two_index_files) ''db/index'' ''*.pkl'') = 2
   \<and> store_ops (trace (snd (ingest ex_env ex_settings LocalWorker ex_world_two_index_files))) =
       [StoreCreate [ex_chunk_a], StorePersist]
   \<and> loaders (trace (snd (ingest ex_env ex_settings LocalWorker ex_world_two_index_files))) = [[]]"
proof -
  have a: "\<not> does_vectorstore_exist ex_settings (fs ex_world_two_index_files)" by code_simp
  have b: "length (path_glob (fs ex_world_two_index_files) ''db/index'' ''*.bin'')
       + length (path_glob (fs ex_world_two_index_files) ''db/index'' ''*.pkl'') = 2"
    by code_simp
  have c: "store_ops (trace (snd (ingest ex_env ex_settings LocalWorker ex_world_two_index_files))) =
       [StoreCreate [ex_chunk_a], StorePersist]" by code_simp
  have d: "loaders (trace ex_world_two_index_files) = []" by code_simp
  have e: "loaders (trace (snd (ingest ex_env ex_settings LocalWorker ex_world_two_index_files))) \<noteq> []"
    by code_simp
  from store_exists_iff_four_conditions[of ex_settings "fs ex_world_two_index_files"
      ex_world_two_index_files ex_env LocalWorker] a b c d e
  show ?thesis by simp
qed

subsection \<open>C5: excluded files are not parsed\<close>

lemma load_single_document_source:
  "load_single_document en fsys p = Inr d \<Longrightarrow> source d = p"
  by (auto simp: load_single_document_def Let_def split: if_splits option.splits node.splits)

lemma append_results_None:
  "append_results rs docs = (None, docs') \<Longrightarrow> \<exists>ds. rs = map Inr ds \<and> docs' = docs @ ds"
proof (induction rs docs rule: append_results.induct)
  case (1 docs)
  then show ?case by simp
next
  case (2 e rs docs)
  then show ?case by simp
next
  case (3 d rs docs)
  then obtain ds where "rs = map Inr ds" "docs' = (docs @ [d]) @ ds" by auto
  then show ?case by (intro exI[of _ "d # ds"]) simp
qed

lemma load_documents:
  assumes "load en self d w = (None, w')"
  shows "map source (cls_documents w') =
           map source (cls_documents w) @ filtered_files self (fs w) d"
proof -
  let ?files = "filtered_files self (fs w) d"
  from assms obtain docs where
    ar: "append_results (map (load_single_document en (fs w)) ?files) (cls_documents w) = (None, docs)"
    and w': "cls_documents w' = docs"
    by (auto simp: load_def Let_def documents_def split: prod.splits)
  from append_results_None[OF ar] obtain ds where
    ds: "map (load_single_document en (fs w)) ?files = map Inr ds" "docs = cls_documents w @ ds"
    by blast
  have "map source ds = ?files"
  proof (rule nth_equalityI)
    from ds(1) show len: "length (map source ds) = length ?files"
      by (metis length_map)
    fix i assume "i < length (map source ds)"
    with len have i: "i < length ?files" "i < length ds" by simp_all
    from ds(1) have "map (load_single_document en (fs w)) ?files ! i = map Inr ds ! i" by simp
    with i have "load_single_document en (fs w) (?files ! i) = Inr (ds ! i)" by simp
    from load_single_document_source[OF this] i show "map source ds ! i = ?files ! i" by simp
  qed
  with ds(2) w' show ?thesis by simp
qed






subsection \<open>C2: what two loaders share\<close>

text \<open>
  Claim C2 says that the chunks the first loader's \<^verbatim>\<open>process\<close> made are present in
  the \<^verbatim>\<open>processed_texts\<close> of a second loader. They are not: \<^verbatim>\<open>process\<close> assigns
  the attribute on the instance. On the example the first loader has loaded and
  processed \<^verbatim>\<open>a.txt\<close>; a loader constructed then does not hold its chunk.
\<close>

theorem processed_texts_shared_counterexample:
  "fst (load ex_env ex_loader ''docs'' ex_world) = None
   \<and> process ex_env ex_loader ex_world_loaded = Inr ex_loader_processed
   \<and> ex_chunk_a \<in> set (processed_texts ex_world_loaded ex_loader_processed)
   \<and> ex_chunk_a \<notin> set (processed_texts ex_world_loaded (DocumentLoader [] ex_settings))"
  by code_simp

lemma load_cls_processed_texts:
  "cls_processed_texts (snd (load en self d w)) = cls_processed_texts w"
  by (simp add: load_def Let_def emit_def split: prod.splits)

text \<open>
  Claim C2, amended. \<^verbatim>\<open>documents\<close> is shared: after a \<^verbatim>\<open>load\<close> by one loader,
  any other loader of the process sees the same list, which holds what was there
  before and the documents of the files just loaded; a loader constructed afterwards
  does not start from an empty list. \<^verbatim>\<open>processed_texts\<close> is not shared: \<^verbatim>\<open>load\<close>
  leaves the class attribute as it is, \<^verbatim>\<open>process\<close> gives the chunks of all shared
  documents to the instance it is called on, and another loader still reads the
  class attribute.
\<close>

theorem documents_shared_between_loaders:
  "(fst (load en self1 d w) = None \<longrightarrow>
      documents (snd (load en self1 d w)) (DocumentLoader ig2 st2) =
        documents (snd (load en self1 d w)) self1
      \<and> map source (documents (snd (load en self1 d w)) (DocumentLoader ig2 st2)) =
          map source (documents w self1) @ filtered_files self1 (fs w) d)
   \<and> cls_processed_texts (snd (load en self1 d w)) = cls_processed_texts w
   \<and> (process en self1 w1 = Inr self1' \<longrightarrow>
        processed_texts w1 self1' =
          split_documents en (textsplitter_size (loader_settings self1))
            (textsplitter_overlap (loader_settings self1)) (documents w1 self1)
        \<and> processed_texts w1 (DocumentLoader ig2 st2) = cls_processed_texts w1)"
proof (intro conjI impI)
  assume "fst (load en self1 d w) = None"
  then have "load en self1 d w = (None, snd (load en self1 d w))" by (metis prod.collapse)
  from load_documents[OF this]
  show "map source (documents (snd (load en self1 d w)) (DocumentLoader ig2 st2)) =
          map source (documents w self1) @ filtered_files self1 (fs w) d"
    by (simp add: documents_def)
qed (auto simp: documents_def load_cls_processed_texts process_def processed_texts_def
      DocumentLoader_def Let_def split: if_splits)

theorem documents_shared_between_loaders_witness:
  "fst (load ex_env ex_loader ''docs'' ex_world) = None
   \<and> process ex_env ex_loader ex_world_loaded = Inr ex_loader_processed
   \<and> map source (documents ex_world_loaded (DocumentLoader [] ex_settings)) = [''docs/a.txt'']
   \<and> processed_texts ex_world_loaded (DocumentLoader [] ex_settings) = []"
proof -
  have a: "fst (load ex_env ex_loader ''docs'' ex_world) = None" by code_simp
  have b: "process ex_env ex_loader ex_world_loaded = Inr ex_loader_processed" by code_simp
  have c: "map source (documents ex_world ex_loader) @ filtered_files ex_loader (fs ex_world) ''docs''
       = [''docs/a.txt'']" by code_simp
  have d: "cls_processed_texts ex_world_loaded = []" by code_simp
  from documents_shared_between_loaders[of ex_env ex_loader "''docs''" ex_world "[]" ex_settings
      ex_world_loaded ex_loader_processed] a b c d
  show ?thesis by (simp add: ex_world_loaded_def documents_def)
qed

subsection \<open>C7: the url operation\<close>




subsection \<open>C6: failed downloads\<close>




















subsection \<open>C8: the dispatcher\<close>

text \<open>
  Claim C8 says that an unknown kind raises \<^verbatim>\<open>InvalidOperationKeyError\<close>. Through
  \<^verbatim>\<open>ingest\<close> of \<^verbatim>\<open>ingestor.py\<close> it raises \<^verbatim>\<open>ValueError\<close>: the string is turned
  into a member of the enum before \<^verbatim>\<open>perform_operation\<close> is called.
\<close>

theorem unknown_kind_error_counterexample:
  "fst (ingestor_ingest ex_env ''chat'' ex_kwargs ex_world) = Inl ValueError
   \<and> fst (ingestor_ingest ex_env ''chat'' ex_kwargs ex_world) \<noteq> Inl InvalidOperationKeyError"
  by code_simp

lemma OperationsEnum_of_Str:
  "OperationsEnum_of (Str ''web'') = Inr WEB"
  "OperationsEnum_of (Str ''local'') = Inr LOCAL"
  "OperationsEnum_of (Str ''url'') = Inr URL"
  "arg \<notin> set [''local'', ''web'', ''url''] \<Longrightarrow> OperationsEnum_of (Str arg) = Inl ValueError"
  by (simp_all add: OperationsEnum_of_def)

lemma perform_operation_Member:
  "perform_operation en (Member m) kw w = operations m en kw w"
  by (simp add: perform_operation_def contains_def OperationsEnum_of_def)

text \<open>
  Claim C8, amended. For the kinds \<^verbatim>\<open>local\<close>, \<^verbatim>\<open>web\<close> and \<^verbatim>\<open>url\<close>, \<^verbatim>\<open>ingest\<close>
  and \<^verbatim>\<open>perform_operation\<close> run the matching coordinator, and what they return is
  one of its two status strings. For every other string no coordinator runs (the
  world is unchanged): \<^verbatim>\<open>perform_operation\<close> raises
  \<^verbatim>\<open>InvalidOperationKeyError\<close>, and \<^verbatim>\<open>ingest\<close> raises \<^verbatim>\<open>ValueError\<close>.
\<close>

theorem dispatcher_validates_kind:
  "ingestor_ingest en ''local'' kw w = process_from_local en kw w
   \<and> ingestor_ingest en ''web'' kw w = process_from_web en kw w
   \<and> ingestor_ingest en ''url'' kw w = url_direct_download en kw w
   \<and> perform_operation en (Str ''local'') kw w = process_from_local en kw w
   \<and> perform_operation en (Str ''web'') kw w = process_from_web en kw w
   \<and> perform_operation en (Str ''url'') kw w = url_direct_download en kw w
   \<and> (arg \<notin> set [''local'', ''web'', ''url''] \<longrightarrow>
        ingestor_ingest en arg kw w = (Inl ValueError, w)
        \<and> perform_operation en (Str arg) kw w = (Inl InvalidOperationKeyError, w))
   \<and> (ingestor_ingest en ''local'' kw w = (Inr msg, w') \<longrightarrow>
        msg \<in> set [''Files imported successfully'', ''No files were imported locally''])
   \<and> (ingestor_ingest en ''web'' kw w = (Inr msg, w') \<longrightarrow>
        msg \<in> set [''Automated download and import was successful'',
                    ''No files were imported from the web''])
   \<and> (ingestor_ingest en ''url'' kw w = (Inr msg, w') \<longrightarrow>
        msg \<in> set [''Automated download and import was successful'',
                    ''A file was not imported from an URL''])"
proof -
  have l: "ingestor_ingest en ''local'' kw w = process_from_local en kw w"
    and wb: "ingestor_ingest en ''web'' kw w = process_from_web en kw w"
    and u: "ingestor_ingest en ''url'' kw w = url_direct_download en kw w"
    by (simp_all add: ingestor_ingest_def OperationsEnum_of_Str perform_operation_Member)
  have pl: "perform_operation en (Str ''local'') kw w = process_from_local en kw w"
    and pw: "perform_operation en (Str ''web'') kw w = process_from_web en kw w"
    and pu: "perform_operation en (Str ''url'') kw w = url_direct_download en kw w"
    by (simp_all add: perform_operation_def contains_def OperationsEnum_of_Str)
  have bad: "arg \<notin> set [''local'', ''web'', ''url''] \<longrightarrow>
        ingestor_ingest en arg kw w = (Inl ValueError, w)
        \<and> perform_operation en (Str arg) kw w = (Inl InvalidOperationKeyError, w)"
    by (simp add: ingestor_ingest_def perform_operation_def contains_def OperationsEnum_of_def)
  have ml: "process_from_local en kw w = (Inr msg, w') \<longrightarrow>
        msg \<in> set [''Files imported successfully'', ''No files were imported locally'']"
    by (auto simp: process_from_local_def split: prod.splits sum.splits if_splits)
  have mw: "process_from_web en kw w = (Inr msg, w') \<longrightarrow>
        msg \<in> set [''Automated download and import was successful'',
                    ''No files were imported from the web'']"
    by (auto simp: process_from_web_def split: prod.splits sum.splits if_splits)
  have mu: "url_direct_download en kw w = (Inr msg, w') \<longrightarrow>
        msg \<in> set [''Automated download and import was successful'',
                    ''A file was not imported from an URL'']"
    by (auto simp: url_direct_download_def split: prod.splits sum.splits option.splits if_splits)
  from l wb u pl pw pu bad ml mw mu show ?thesis by (simp only: simp_thms)
qed

theorem dispatcher_validates_kind_witness:
  "''chat'' \<notin> set [''local'', ''web'', ''url'']
   \<and> ingestor_ingest ex_env ''chat'' ex_kwargs ex_world = (Inl ValueError, ex_world)
   \<and> perform_operation ex_env (Str ''chat'') ex_kwargs ex_world =
       (Inl InvalidOperationKeyError, ex_world)
   \<and> ingestor_ingest ex_env ''local'' ex_kwargs ex_world =
       (Inr ''Files imported successfully'',
        snd (ingestor_ingest ex_env ''local'' ex_kwargs ex_world))"
proof -
  have a: "''chat'' \<notin> set [''local'', ''web'', ''url'']" by simp
  have "fst (process_from_local ex_env ex_kwargs ex_world) = Inr ''Files imported successfully''"
    by code_simp
  then have b: "process_from_local ex_env ex_kwargs ex_world =
      (Inr ''Files imported successfully'', snd (process_from_local ex_env ex_kwargs ex_world))"
    by (metis prod.collapse)
  from dispatcher_validates_kind[of ex_env ex_kwargs ex_world "''chat''"] a b
  show ?thesis by simp
qed

subsection \<open>C9: merging configurations\<close>

lemma dict_merge_keys:
  "fst ` set (dict_merge base nxt) = fst ` set base \<union> fst ` set nxt"
proof (induction nxt arbitrary: base)
  case Nil
  then show ?case by simp
next
  case (Cons kv nxt)
  obtain k v where kv: "kv = (k, v)" by (cases kv)
  show ?case
  proof (cases "map_of base k")
    case None
    with Cons.IH[of "base @ [(k, v)]"] kv show ?thesis by auto
  next
    case (Some bv)
    then have "(k, bv) \<in> set base" by (rule map_of_SomeD)
    then have "k \<in> fst ` set base" by force
    with Cons.IH[of "AList.update k (always_merge bv v) base"] kv Some show ?thesis
      by (auto simp: AList.dom_update)
  qed
qed

lemma dict_merge_lookup:
  "distinct (map fst nxt) \<Longrightarrow>
     map_of (dict_merge base nxt) k =
       (case map_of nxt k of
          None \<Rightarrow> map_of base k
        | Some v \<Rightarrow> (case map_of base k of None \<Rightarrow> Some v | Some bv \<Rightarrow> Some (always_merge bv v)))"
proof (induction nxt arbitrary: base)
  case Nil
  then show ?case by simp
next
  case (Cons kv nxt)
  obtain k' v' where kv: "kv = (k', v')" by (cases kv)
  from Cons.prems kv have d: "distinct (map fst nxt)" and nk: "k' \<notin> fst ` set nxt" by auto
  from nk have n: "map_of nxt k' = None" by (simp add: map_of_eq_None_iff)
  define base' where "base' = (case map_of base k' of None \<Rightarrow> base @ [(k', v')]
                | Some bv \<Rightarrow> AList.update k' (always_merge bv v') base)"
  have step: "dict_merge base (kv # nxt) = dict_merge base' nxt"
    using kv by (simp add: base'_def)
  have b': "map_of base' k =
      (if k = k' then (case map_of base k' of None \<Rightarrow> Some v' | Some bv \<Rightarrow> Some (always_merge bv v'))
       else map_of base k)"
    by (auto simp: base'_def AList.update_conv' map_add_def split: option.splits)
  show ?case
  proof (cases "k = k'")
    case True
    with Cons.IH[OF d, of base'] n b' step kv show ?thesis by (simp split: option.splits)
  next
    case False
    with Cons.IH[OF d, of base'] b' step kv show ?thesis by (simp split: option.splits)
  qed
qed

lemma dict_merge_distinct:
  "distinct (map fst (base @ nxt)) \<Longrightarrow> dict_merge base nxt = base @ nxt"
proof (induction nxt arbitrary: base)
  case Nil
  then show ?case by simp
next
  case (Cons kv nxt)
  obtain k v where kv: "kv = (k, v)" by (cases kv)
  from Cons.prems kv have "k \<notin> fst ` set base" by auto
  then have n: "map_of base k = None" by (simp add: map_of_eq_None_iff)
  from Cons.prems kv have "distinct (map fst ((base @ [(k, v)]) @ nxt))" by simp
  from Cons.IH[OF this] n kv show ?case by simp
qed

lemma merge_into_empty: "distinct (map fst a) \<Longrightarrow> dict_merge [] a = a"
  using dict_merge_distinct[of "[]" a] by simp

lemma valid_lookup: "valid (CDict a) \<Longrightarrow> map_of a k = Some v \<Longrightarrow> valid v"
  by (auto dest: map_of_SomeD)

text \<open>
  Claim C9. The merge of a default mapping \<open>a\<close> and a user's mapping \<open>b\<close> has the
  keys of both. A key of only one of them keeps its value; on a key that both map to
  scalars the user's value wins; on a key that both map to mappings the value is the
  merge of the two mappings.
\<close>

theorem merge_user_over_default:
  assumes "valid (CDict a)" and "valid (CDict b)"
  shows "fst ` set (merge a b) = fst ` set a \<union> fst ` set b
    \<and> (map_of b k = None \<longrightarrow> map_of (merge a b) k = map_of a k)
    \<and> (map_of a k = None \<longrightarrow> map_of (merge a b) k = map_of b k)
    \<and> (map_of a k = Some (Scalar x) \<longrightarrow> map_of b k = Some (Scalar y) \<longrightarrow>
         map_of (merge a b) k = Some (Scalar y))
    \<and> (map_of a k = Some (CDict c) \<longrightarrow> map_of b k = Some (CDict d) \<longrightarrow>
         map_of (merge a b) k = Some (CDict (merge c d)))"
proof -
  from assms have da: "distinct (map fst a)" and db: "distinct (map fst b)" by simp_all
  have m: "merge a b = dict_merge a b" by (simp add: merge_def merge_into_empty[OF da])
  have keys: "fst ` set (merge a b) = fst ` set a \<union> fst ` set b"
    by (simp add: m dict_merge_keys)
  note look = dict_merge_lookup[OF db, of a k]
  have nested: "map_of (merge a b) k = Some (CDict (merge c d))"
    if "map_of a k = Some (CDict c)" "map_of b k = Some (CDict d)"
  proof -
    from valid_lookup[OF assms(1) that(1)] have "distinct (map fst c)" by simp
    then have "merge c d = dict_merge c d" by (simp add: merge_def merge_into_empty)
    with look that show ?thesis by (simp add: m)
  qed
  from keys look nested show ?thesis by (auto simp: m split: option.splits)
qed

theorem merge_user_over_default_witness:
  "valid (CDict ex_default) \<and> valid (CDict ex_user)
   \<and> map fst (merge ex_default ex_user) =
       [''sourcedocuments'', ''textsplitter'', ''crawler'', ''chat'']
   \<and> map_of (merge ex_default ex_user) ''sourcedocuments'' = Some (Scalar ''library'')
   \<and> map_of (merge ex_default ex_user) ''textsplitter'' =
       Some (CDict [(''size'', Scalar ''1000''), (''overlap'', Scalar ''50'')])"
proof -
  have a: "valid (CDict ex_default)" and b: "valid (CDict ex_user)" by code_simp+
  have c: "map_of ex_default ''sourcedocuments'' = Some (Scalar ''docs'')"
    and d: "map_of ex_user ''sourcedocuments'' = Some (Scalar ''library'')" by code_simp+
  have e: "map fst (merge ex_default ex_user) =
       [''sourcedocuments'', ''textsplitter'', ''crawler'', ''chat'']" by code_simp
  have f: "map_of (merge ex_default ex_user) ''textsplitter'' =
       Some (CDict [(''size'', Scalar ''1000''), (''overlap'', Scalar ''50'')])" by code_simp
  from merge_user_over_default[OF a b, of "''sourcedocuments''" "''docs''" "''library''"] c d
  have "map_of (merge ex_default ex_user) ''sourcedocuments'' = Some (Scalar ''library'')"
    by simp
  with a b e f show ?thesis by simp
qed

subsection \<open>Re-ingestion in a new process\<close>

text \<open>
  The counterpart of the example for claim C1. When the second run is a new process,
  it finds nothing new: after a first local run on a fresh store in a process that
  had loaded nothing, a second run in a new process returns \<^verbatim>\<open>False\<close> and leaves the
  stored collection as it is, provided the files Chroma wrote pass the existence
  check and the source documents are unchanged. So the duplicates of the example
  come from the documents that the class attribute keeps within one process.
\<close>

lemma local_gather_outcome:
  assumes "local_gather en st c w = (r, w')"
  shows "r = local_outcome en st (fs w) (exclusion c) (cls_documents w)"
    and "fs w' = fs w" and "persisted w' = persisted w"
  using assms
  by (auto simp: local_gather_def local_outcome_def load_def process_and_check_def process_def
      processed_texts_def documents_def filtered_files_def DocumentLoader_def emit_def Let_def
      split: if_splits prod.splits option.splits sum.splits)


lemma ingest_local_outcome:
  assumes "ingest en st LocalWorker w = (r, w')"
  defines "out \<equiv> local_outcome en st (fs w)
      (if does_vectorstore_exist st (fs w) then map source (persisted w) else [])
      (cls_documents w)"
  shows "r = (case out of
                Inl e \<Rightarrow> if e = NoNewDocumentsLoadedError then Inr False else Inl e
              | Inr texts \<Rightarrow> Inr True)"
    and "persisted w' = (case out of Inl e \<Rightarrow> persisted w | Inr texts \<Rightarrow> persisted w @ texts)"
    and "\<And>e. out = Inl e \<Longrightarrow> fs w' = fs w"
proof -
  obtain coll wg where gc: "gather_call st w = (coll, wg)" by (cases "gather_call st w")
  obtain g w1 where ga: "local_gather en st coll wg = (g, w1)"
    by (cases "local_gather en st coll wg")
  from gc have wg: "fs wg = fs w" "persisted wg = persisted w" "cls_documents wg = cls_documents w"
    and coll: "coll = (if does_vectorstore_exist st (fs w) then Some (persisted w) else None)"
    by (auto simp: gather_call_def Let_def emit_def split: if_splits)
  from local_gather_outcome[OF ga] wg coll
  have g: "g = out" and w1: "fs w1 = fs w" "persisted w1 = persisted w"
    by (auto simp: out_def exclusion_def)
  from assms(1) gc ga g w1 coll
  show "r = (case out of
                Inl e \<Rightarrow> if e = NoNewDocumentsLoadedError then Inr False else Inl e
              | Inr texts \<Rightarrow> Inr True)"
    and "persisted w' = (case out of Inl e \<Rightarrow> persisted w | Inr texts \<Rightarrow> persisted w @ texts)"
    and "\<And>e. out = Inl e \<Longrightarrow> fs w' = fs w"
    by (auto simp: ingest_by_gather_call persist_def emit_def split: sum.splits if_splits)
qed

lemma append_results_Inr: "append_results (map Inr ds) docs = (None, docs @ ds)"
  by (induction ds arbitrary: docs) simp_all

lemma map_all_Inr:
  "\<forall>p \<in> set xs. \<exists>d. f p = Inr d \<Longrightarrow>
     \<exists>ds. map f xs = map Inr ds \<and> (\<forall>d \<in> set ds. \<exists>p \<in> set xs. f p = Inr d)"
proof (induction xs)
  case Nil
  then show ?case by simp
next
  case (Cons x xs)
  then obtain d ds where d: "f x = Inr d"
    and ds: "map f xs = map Inr ds" "\<forall>d \<in> set ds. \<exists>p \<in> set xs. f p = Inr d"
    by auto
  then show ?case by (intro exI[of _ "d # ds"]) auto
qed

lemma load_single_document_same_file:
  "map_of f' p = map_of f p \<Longrightarrow> load_single_document en f' p = load_single_document en f p"
  by (auto simp: load_single_document_def Let_def split: option.splits node.splits)

lemma split_documents_empty:
  "(\<forall>d \<in> set ds. split_text en sz ov (page_content d) = []) \<Longrightarrow> split_documents en sz ov ds = []"
  by (simp add: split_documents_def)

lemma split_documents_chunk:
  "d \<in> set docs \<Longrightarrow> t \<in> set (split_text en sz ov (page_content d)) \<Longrightarrow>
     \<lparr>page_content = t, source = source d\<rparr> \<in> set (split_documents en sz ov docs)"
  by (auto simp: split_documents_def)

text \<open>In a new process nothing of the sources is new after a run that stored their chunks.\<close>

lemma nothing_new_after_stored:
  assumes out1: "local_outcome en st f [] [] = Inr texts"
    and same: "same_sources st f f'"
  shows "local_outcome en st f' (map source texts) [] = Inl NoNewDocumentsLoadedError"
proof -
  let ?src = "sourcedocuments st"
  let ?sz = "textsplitter_size st" and ?ov = "textsplitter_overlap st"
  let ?F = "all_files f ?src"
  let ?parse = "load_single_document en f"
  from out1 obtain docs where
    ex: "path_exists f ?src" and
    ar: "append_results (map ?parse ?F) [] = (None, docs)" and
    tx: "texts = split_documents en ?sz ?ov docs"
    by (auto simp: local_outcome_def split: if_splits prod.splits option.splits)
  from append_results_None[OF ar] have parsed: "map ?parse ?F = map Inr docs" by auto
  let ?F2 = "[p \<leftarrow> all_files f' ?src. p \<notin> set (map source texts)]"
  from same have ex': "path_exists f' ?src" and F': "all_files f' ?src = ?F"
    and cont: "\<forall>p \<in> set ?F. map_of f' p = map_of f p"
    using ex by (simp_all add: same_sources_def list_all_iff)
  have sub: "set ?F2 \<subseteq> set ?F" using F' by auto
  have p2: "map (load_single_document en f') ?F2 = map ?parse ?F2"
    using sub cont by (auto intro: load_single_document_same_file)
  have "\<forall>p \<in> set ?F2. \<exists>d. ?parse p = Inr d"
  proof
    fix p assume "p \<in> set ?F2"
    with sub have "?parse p \<in> set (map ?parse ?F)" by auto
    with parsed show "\<exists>d. ?parse p = Inr d" by auto
  qed
  from map_all_Inr[OF this] obtain ds where
    ds: "map ?parse ?F2 = map Inr ds" "\<forall>d \<in> set ds. \<exists>p \<in> set ?F2. ?parse p = Inr d"
    by blast
  have none: "split_text en ?sz ?ov (page_content d) = []" if "d \<in> set ds" for d
  proof (rule ccontr)
    assume "split_text en ?sz ?ov (page_content d) \<noteq> []"
    then obtain t where t: "t \<in> set (split_text en ?sz ?ov (page_content d))"
      by (cases "split_text en ?sz ?ov (page_content d)") auto
    from ds(2) that obtain p where p: "p \<in> set ?F2" "?parse p = Inr d" by blast
    from p(1) sub have "?parse p \<in> set (map ?parse ?F)" by auto
    with parsed p(2) have "d \<in> set docs" by auto
    from split_documents_chunk[OF this t] tx
    have "\<lparr>page_content = t, source = source d\<rparr> \<in> set texts" by simp
    then have "source \<lparr>page_content = t, source = source d\<rparr> \<in> source ` set texts"
      by (rule imageI)
    then have "source d \<in> set (map source texts)" by simp
    moreover from load_single_document_source[OF p(2)] have "source d = p" .
    ultimately show False using p(1) by simp
  qed
  then have e: "split_documents en ?sz ?ov ds = []" by (intro split_documents_empty) blast
  from p2 ds(1) have "map (load_single_document en f') ?F2 = map Inr ds" by (rule trans)
  then have ar2: "append_results (map (load_single_document en f') ?F2) [] = (None, ds)"
    by (simp only: append_results_Inr append_Nil)
  show ?thesis unfolding local_outcome_def ar2 using ex' e by simp
qed

lemma reingestion_in_new_process_is_noop:
  assumes process: "cls_documents w0 = []"
    and store: "persisted w0 = []" "\<not> does_vectorstore_exist st (fs w0)"
    and run1: "ingest en st LocalWorker w0 = (Inr b, w1)"
    and chroma: "b \<Longrightarrow> does_vectorstore_exist st (fs w1)"
    and sources: "same_sources st (fs w0) (fs w1)"
  shows "fst (ingest en st LocalWorker (new_process w1)) = Inr False"
    and "persisted (snd (ingest en st LocalWorker (new_process w1))) = persisted w1"
proof -
  let ?out1 = "local_outcome en st (fs w0) [] []"
  let ?w = "new_process w1"
  let ?r2 = "ingest en st LocalWorker ?w"
  have w: "fs ?w = fs w1" "persisted ?w = persisted w1" "cls_documents ?w = []"
    by (simp_all add: new_process_def)
  have o1: "(if does_vectorstore_exist st (fs w0) then map source (persisted w0) else []) = []"
    using store by simp
  note i1 = ingest_local_outcome[OF run1, unfolded o1 process]
  have i2: "?r2 = (fst ?r2, snd ?r2)" by simp
  note i2 = ingest_local_outcome[OF i2, unfolded w]
  have "fst ?r2 = Inr False \<and> persisted (snd ?r2) = persisted w1"
  proof (cases ?out1)
    case (Inl e)
    with i1 store(1) have e: "e = NoNewDocumentsLoadedError" and f: "fs w1 = fs w0"
      and p: "persisted w1 = []"
      by (auto split: if_splits)
    from f store(2) have "\<not> does_vectorstore_exist st (fs w1)" by simp
    with i2(1,2) f Inl e show ?thesis by simp
  next
    case (Inr texts)
    with i1 store(1) have b: "b" and p: "persisted w1 = texts" by auto
    from nothing_new_after_stored[OF Inr sources] chroma[OF b] p i2(1,2)
    show ?thesis by simp
  qed
  then show "fst ?r2 = Inr False" and "persisted (snd ?r2) = persisted w1" by simp_all
qed

lemma reingestion_in_new_process_example:
  "fst (ingest ex_env ex_settings LocalWorker
          (new_process (snd (ingest ex_env ex_settings LocalWorker ex_world)))) = Inr False
   \<and> persisted (snd (ingest ex_env ex_settings LocalWorker
          (new_process (snd (ingest ex_env ex_settings LocalWorker ex_world))))) = [ex_chunk_a]"
  by code_simp

end
